theory Spec2Isabelle
  imports Complex_Main
begin

section \<open>SleepTracker: audio spike monitor and parallel audio/video recorder\<close>

text \<open>
  A shallow embedding of \<^verbatim>\<open>src/main.py\<close>. The frame rate of lines 61 to 64 is a
  binary64 number, computed with the rounding of Python's float arithmetic. Audio samples,
  levels and clock readings are real numbers, the levels extended by the two special values
  that the level computation can produce (\<open>nan\<close> and \<open>-inf\<close>). Everything the program
  obtains from its surroundings (clock readings, frame reads, delivered audio blocks, the
  behaviour of the external tool) is an explicit input.
\<close>

subsection \<open>NumPy scalars\<close>

datatype npfloat = Fin real | NegInf | NaN

type_synonym block = "real list"

text \<open>\<^verbatim>\<open>np.mean\<close>: the mean of an empty array is \<open>nan\<close> (with a warning, not an exception).\<close>

definition np_mean :: "real list \<Rightarrow> npfloat" where
  "np_mean xs = (if xs = [] then NaN else Fin (sum_list xs / real (length xs)))"

fun np_sqrt :: "npfloat \<Rightarrow> npfloat" where
  "np_sqrt (Fin x) = (if 0 \<le> x then Fin (sqrt x) else NaN)"
| "np_sqrt NegInf = NaN"
| "np_sqrt NaN = NaN"

fun np_add :: "npfloat \<Rightarrow> real \<Rightarrow> npfloat" where
  "np_add (Fin x) c = Fin (x + c)"
| "np_add NegInf c = NegInf"
| "np_add NaN c = NaN"

fun np_log10 :: "npfloat \<Rightarrow> npfloat" where
  "np_log10 (Fin x) = (if 0 < x then Fin (log 10 x) else if x = 0 then NegInf else NaN)"
| "np_log10 NegInf = NaN"
| "np_log10 NaN = NaN"

text \<open>Multiplication by a positive Python constant on the left.\<close>

fun np_scale :: "real \<Rightarrow> npfloat \<Rightarrow> npfloat" where
  "np_scale c (Fin x) = Fin (c * x)"
| "np_scale c NegInf = NegInf"
| "np_scale c NaN = NaN"

text \<open>\<^verbatim>\<open>db > threshold\<close>: every comparison with \<open>nan\<close> is false.\<close>

fun np_gt :: "npfloat \<Rightarrow> real \<Rightarrow> bool" where
  "np_gt (Fin x) t = (t < x)"
| "np_gt NegInf t = False"
| "np_gt NaN t = False"

subsection \<open>AudioMonitor\<close>

text \<open>
  Line 20:
  \<^verbatim>\<open>db = 20 * np.log10(np.sqrt(np.mean(indata**2)) + 1e-6)\<close>
\<close>

definition level :: "block \<Rightarrow> npfloat" where
  "level indata =
     np_scale 20 (np_log10 (np_add (np_sqrt (np_mean (map (\<lambda>x. x ^ 2) indata))) (1 / 10 ^ 6)))"

record monitor =
  threshold_db :: int
  running :: bool

text \<open>
  The stream callback \<^verbatim>\<open>cb\<close> (lines 18 to 21); the result says whether
  \<^verbatim>\<open>spike_detected\<close> is emitted for the block.
\<close>

definition cb :: "monitor \<Rightarrow> block \<Rightarrow> bool" where
  "cb m indata =
     (if \<not> running m then False
      else np_gt (level indata) (real_of_int (threshold_db m)))"

text \<open>
  The blocks the stream delivers while the monitor's flag does not change; the result lists
  the positions (counted from \<open>i\<close>) of the blocks for which the signal is emitted.
\<close>

fun deliver :: "monitor \<Rightarrow> nat \<Rightarrow> block list \<Rightarrow> nat list" where
  "deliver m i [] = []"
| "deliver m i (b # bs) = (if cb m b then [i] else []) @ deliver m (Suc i) bs"

subsection \<open>RecorderThread: Python floats\<close>

datatype py_error = ZeroDivisionError | ValueError | FileNotFoundError | PortAudioError

text \<open>
  A finite binary64 number with its sign bit: the value is \<open>\<plusminus> mant * 2 ^ expo\<close>. The
  operations below return the stored form: \<open>mant < 2 ^ 53\<close>, with \<open>2 ^ 52 \<le> mant\<close> unless
  \<open>expo = - 1074\<close> (a subnormal number), and zero as \<open>mant = 0\<close>, \<open>expo = 0\<close>. The
  exponent is not bounded above: CPython raises \<^verbatim>\<open>OverflowError\<close> where the quotient of
  line 61 exceeds the largest double, which takes more than \<open>2 ^ 1023\<close> written frames,
  and that case is left out.
\<close>

datatype double = Double (negative: bool) (mant: nat) (expo: int)

definition dval :: "double \<Rightarrow> real" where
  "dval x = (if negative x then - 1 else 1) * real (mant x) * 2 powi expo x"

text \<open>\<open>2 ^ k\<close> for \<open>k \<ge> 0\<close>, and 1 otherwise.\<close>

definition pow2 :: "int \<Rightarrow> nat" where
  "pow2 k = 2 ^ nat k"

fun bit_length :: "nat \<Rightarrow> nat" where
  "bit_length n = (if n = 0 then 0 else Suc (bit_length (n div 2)))"

text \<open>The integer nearest to \<open>n / d\<close>, a tie going to the even one.\<close>

definition rhe_div :: "nat \<Rightarrow> nat \<Rightarrow> nat" where
  "rhe_div n d =
     (let q = n div d; r = n mod d
      in if 2 * r < d then q
         else if d < 2 * r then q + 1
         else if even q then q else q + 1)"

text \<open>
  Round to nearest, ties to even: the magnitude of the double nearest to \<open>p / q\<close>, for
  \<open>q > 0\<close>. \<open>e0\<close> is the integer with \<open>2 ^ e0 \<le> p / q < 2 ^ (e0 + 1)\<close>, and \<open>e\<close> the
  exponent of the unit in the last place.
\<close>

definition round_ratio :: "nat \<Rightarrow> nat \<Rightarrow> nat \<times> int" where
  "round_ratio p q =
     (if p = 0 then (0, 0)
      else
        let k = int (bit_length p) - int (bit_length q);
            e0 = (if q * pow2 k \<le> p * pow2 (- k) then k else k - 1);
            e = max (e0 - 52) (- 1074);
            m = rhe_div (p * pow2 (- e)) (q * pow2 e)
        in if m = 0 then (0, 0)
           else if m = 2 ^ 53 then (2 ^ 52, e + 1)
           else (m, e))"

text \<open>The conversion of an integer, exact below \<open>2 ^ 53\<close>.\<close>

definition float_of_int :: "int \<Rightarrow> double" where
  "float_of_int n = (case round_ratio (nat \<bar>n\<bar>) 1 of (m, e) \<Rightarrow> Double (n < 0) m e)"

text \<open>
  Python's true division of two integers: it raises on a zero divisor, and otherwise gives
  the correctly rounded quotient, with the sign bit of the exact result (so \<^verbatim>\<open>0 / -5\<close> is
  \<^verbatim>\<open>-0.0\<close>). The dividend here is a frame count, which is not negative.
\<close>

definition py_truediv :: "nat \<Rightarrow> int \<Rightarrow> py_error + double" where
  "py_truediv a b =
     (if b = 0 then Inl ZeroDivisionError
      else case round_ratio a (nat \<bar>b\<bar>) of (m, e) \<Rightarrow> Inr (Double (b < 0) m e))"

text \<open>
  \<^verbatim>\<open>x - n\<close> for a float \<open>x\<close> and an integer \<open>n\<close> below \<open>2 ^ 53\<close>: the exact difference,
  \<open>num / den\<close>, rounded once. An exact zero is positive, unless both operands are zero and
  \<open>x\<close> is negative.
\<close>

definition float_sub_int :: "double \<Rightarrow> int \<Rightarrow> double" where
  "float_sub_int x n =
     (let num = (if negative x then - 1 else 1) * int (mant x) * int (pow2 (expo x))
                  - n * int (pow2 (- expo x));
          den = pow2 (- expo x)
      in if num = 0 then Double (negative x \<and> mant x = 0) 0 0
         else case round_ratio (nat \<bar>num\<bar>) den of (m, e) \<Rightarrow> Double (num < 0) m e)"

definition float_abs :: "double \<Rightarrow> double" where
  "float_abs x = Double False (mant x) (expo x)"

text \<open>\<^verbatim>\<open>x < y\<close>, by cross multiplication of the two values.\<close>

definition float_less :: "double \<Rightarrow> double \<Rightarrow> bool" where
  "float_less x y =
     ((if negative x then - 1 else 1) * int (mant x) * int (pow2 (expo x)) * int (pow2 (- expo y))
      < (if negative y then - 1 else 1) * int (mant y) * int (pow2 (expo y)) * int (pow2 (- expo x)))"

text \<open>The literal \<^verbatim>\<open>0.1\<close>: the double nearest to one tenth.\<close>

definition float_0_1 :: double where
  "float_0_1 = (case round_ratio 1 10 of (m, e) \<Rightarrow> Double False m e)"

subsection \<open>RecorderThread: numbers and command lines\<close>

definition fps_target :: int where
  "fps_target = 20"

text \<open>Line 43: \<^verbatim>\<open>frame_interval = 1.0 / fps_target\<close>, a clock quantity (a real number).\<close>

definition frame_interval :: real where
  "frame_interval = 1 / real_of_int fps_target"

text \<open>
  Line 61: \<^verbatim>\<open>actual_fps = frames_written / elapsed if elapsed else fps_target\<close>,
  where \<^verbatim>\<open>elapsed\<close> is the integer \<^verbatim>\<open>self.duration\<close> (line 54). In the second
  branch the value is the integer 20, which the subtraction of line 62 treats as the
  float 20.0.
\<close>

definition actual_fps_of :: "nat \<Rightarrow> int \<Rightarrow> py_error + double" where
  "actual_fps_of frames_written elapsed =
     (if elapsed \<noteq> 0 then py_truediv frames_written elapsed
      else Inr (float_of_int fps_target))"

text \<open>Line 62: \<^verbatim>\<open>abs(actual_fps - fps_target) > 0.1\<close>.\<close>

definition needs_retime :: "double \<Rightarrow> bool" where
  "needs_retime actual_fps =
     float_less float_0_1 (float_abs (float_sub_int actual_fps fps_target))"

text \<open>
  The format specification \<^verbatim>\<open>.4f\<close>: the exact value of the float is rounded to four
  decimals, a tie going to the even neighbour, and printed with the sign when the sign bit
  is set, the integer digits, a point and four digits.
\<close>

definition digit_char :: "nat \<Rightarrow> char" where
  "digit_char d = ''0123456789'' ! d"

fun digits :: "nat \<Rightarrow> string" where
  "digits n = (if n < 10 then [digit_char n] else digits (n div 10) @ [digit_char (n mod 10)])"

definition pad4 :: "nat \<Rightarrow> string" where
  "pad4 n = replicate (4 - length (digits n)) (CHR ''0'') @ digits n"

definition fmt4f :: "double \<Rightarrow> string" where
  "fmt4f x =
     (let n = rhe_div (mant x * 10000 * pow2 (expo x)) (pow2 (- expo x))
      in (if negative x then ''-'' else []) @ digits (n div 10000) @ ''.'' @ pad4 (n mod 10000))"

text \<open>The number a string of decimal digits stands for.\<close>

definition digit_value :: "char \<Rightarrow> nat" where
  "digit_value c = length (takeWhile (\<lambda>d. d \<noteq> c) ''0123456789'') mod 10"

definition read_digits :: "string \<Rightarrow> nat" where
  "read_digits s = foldl (\<lambda>n c. 10 * n + digit_value c) 0 s"

definition v_tmp_of :: "string \<Rightarrow> string" where
  "v_tmp_of ts = ''v_'' @ ts @ ''.mp4''"

definition a_tmp_of :: "string \<Rightarrow> string" where
  "a_tmp_of ts = ''a_'' @ ts @ ''.wav''"

definition final_of :: "string \<Rightarrow> string" where
  "final_of ts = ''sleep_'' @ ts @ ''.mp4''"

definition fixed_video_of :: "string \<Rightarrow> string" where
  "fixed_video_of ts = ''vfix_'' @ ts @ ''.mp4''"

text \<open>The argument vectors of lines 64 and 69 to 72.\<close>

definition retime_cmd :: "string \<Rightarrow> double \<Rightarrow> string \<Rightarrow> string list" where
  "retime_cmd v_tmp actual_fps fixed_video =
     [''ffmpeg'', ''-y'', ''-i'', v_tmp, ''-r'', fmt4f actual_fps, fixed_video]"

definition mux_cmd :: "string \<Rightarrow> string \<Rightarrow> string \<Rightarrow> string list" where
  "mux_cmd v_tmp a_tmp final =
     [''ffmpeg'', ''-y'', ''-i'', v_tmp, ''-i'', a_tmp,
      ''-c:v'', ''copy'', ''-c:a'', ''aac'', ''-movflags'', ''+faststart'', ''-shortest'', final]"

subsection \<open>RecorderThread: the world it acts on\<close>

text \<open>
  The files of the working directory, the history of files created, and the history of
  subprocess invocations.
\<close>

record world =
  files :: "string set"
  created :: "string list"
  calls :: "string list list"

definition create_file :: "string \<Rightarrow> world \<Rightarrow> world" where
  "create_file p w = w\<lparr>files := insert p (files w), created := created w @ [p]\<rparr>"

text \<open>\<^verbatim>\<open>os.remove\<close> raises when the path does not exist.\<close>

definition os_remove :: "string \<Rightarrow> world \<Rightarrow> py_error + world" where
  "os_remove p w =
     (if p \<in> files w then Inr (w\<lparr>files := files w - {p}\<rparr>) else Inl FileNotFoundError)"

text \<open>
  What one \<^verbatim>\<open>subprocess.run\<close> of the external tool does: the executable is missing
  (the call raises), or the process exits with a status and has or has not written its
  output file. No \<^verbatim>\<open>check=True\<close> is passed and the returned object is dropped, so the
  exit status reaches nothing. Every call is recorded with its argument vector.
\<close>

datatype tool_outcome = ToolMissing | Exited int bool

fun subprocess_run ::
  "string list \<Rightarrow> string \<Rightarrow> tool_outcome \<Rightarrow> world \<Rightarrow> py_error option \<times> world" where
  "subprocess_run argv out ToolMissing w = (Some FileNotFoundError, w\<lparr>calls := calls w @ [argv]\<rparr>)"
| "subprocess_run argv out (Exited status wrote) w =
     (let w1 = w\<lparr>calls := calls w @ [argv]\<rparr>
      in (None, if wrote then create_file out w1 else w1))"

subsection \<open>RecorderThread: the paced capture loop\<close>

record loop_state =
  next_frame_t :: real
  frames_written :: nat
  sleeps :: "real option list"

text \<open>
  The body of the loop, lines 48 to 53. \<open>ret\<close> is the flag of \<^verbatim>\<open>cap.read()\<close> and
  \<open>now\<close> the reading of \<^verbatim>\<open>time.perf_counter()\<close> at line 52. The entry added to
  \<open>sleeps\<close> is the argument of \<^verbatim>\<open>time.sleep\<close>, or \<open>None\<close> when it is not called.
\<close>

definition loop_body :: "loop_state \<Rightarrow> bool \<Rightarrow> real \<Rightarrow> loop_state" where
  "loop_body st ret now =
     (let st1 = (if ret then st\<lparr>frames_written := frames_written st + 1\<rparr> else st);
          st2 = st1\<lparr>next_frame_t := next_frame_t st1 + frame_interval\<rparr>;
          sleep_for = next_frame_t st2 - now
      in st2\<lparr>sleeps := sleeps st2 @ [if sleep_for > 0 then Some sleep_for else None]\<rparr>)"

text \<open>
  The loop of line 47. Each element of the trace is one evaluation of the loop condition:
  the clock reading of line 47, and, used only when the body runs, the flag of the frame
  read and the clock reading of line 52. A trace that ends before the condition fails
  describes a loop that has not returned: the result is \<open>None\<close>.
\<close>

fun capture_loop :: "real \<Rightarrow> loop_state \<Rightarrow> (real \<times> bool \<times> real) list \<Rightarrow> loop_state option" where
  "capture_loop end_t st [] = None"
| "capture_loop end_t st ((t, ret, now) # rest) =
     (if t < end_t then capture_loop end_t (loop_body st ret now) rest else Some st)"

subsection \<open>RecorderThread.run\<close>

record session_env =
  ts :: string
  cam_opened :: bool
  vw_opened :: bool
  audio_ok :: bool
  clock0 :: real
  trace :: "(real \<times> bool \<times> real) list"
  audio_frames :: "block list"
  retime_out :: tool_outcome
  mux_out :: tool_outcome

text \<open>Lines 69 to 74: mux, remove both inputs, emit \<^verbatim>\<open>finished_recording\<close>.\<close>

definition mux_and_cleanup ::
  "string \<Rightarrow> string \<Rightarrow> string \<Rightarrow> tool_outcome \<Rightarrow> world \<Rightarrow> (py_error + string) \<times> world" where
  "mux_and_cleanup v_tmp a_tmp final mo w =
     (case subprocess_run (mux_cmd v_tmp a_tmp final) final mo w of
        (Some e, w1) \<Rightarrow> (Inl e, w1)
      | (None, w1) \<Rightarrow>
          (case os_remove v_tmp w1 of
             Inl e \<Rightarrow> (Inl e, w1)
           | Inr w2 \<Rightarrow>
               (case os_remove a_tmp w2 of
                  Inl e \<Rightarrow> (Inl e, w2)
                | Inr w3 \<Rightarrow> (Inr final, w3))))"

text \<open>
  Lines 54 to 74. \<^verbatim>\<open>np.concatenate\<close> raises \<^verbatim>\<open>ValueError\<close> on an empty list of
  blocks; \<^verbatim>\<open>sf.write\<close> creates the audio file.
\<close>

definition post_capture ::
  "int \<Rightarrow> string \<Rightarrow> nat \<Rightarrow> block list \<Rightarrow> tool_outcome \<Rightarrow> tool_outcome \<Rightarrow> world
     \<Rightarrow> (py_error + string) \<times> world" where
  "post_capture duration tsv frames audio ro mo w =
     (let elapsed = duration
      in if audio = [] then (Inl ValueError, w)
         else
           let w1 = create_file (a_tmp_of tsv) w
           in case actual_fps_of frames elapsed of
                Inl e \<Rightarrow> (Inl e, w1)
              | Inr actual_fps \<Rightarrow>
                  if needs_retime actual_fps then
                    (case subprocess_run
                            (retime_cmd (v_tmp_of tsv) actual_fps (fixed_video_of tsv))
                            (fixed_video_of tsv) ro w1 of
                       (Some e, w2) \<Rightarrow> (Inl e, w2)
                     | (None, w2) \<Rightarrow>
                         (case os_remove (v_tmp_of tsv) w2 of
                            Inl e \<Rightarrow> (Inl e, w2)
                          | Inr w3 \<Rightarrow>
                              mux_and_cleanup (fixed_video_of tsv) (a_tmp_of tsv) (final_of tsv) mo w3))
                  else mux_and_cleanup (v_tmp_of tsv) (a_tmp_of tsv) (final_of tsv) mo w1)"

text \<open>
  The whole of \<^verbatim>\<open>run\<close>. \<^verbatim>\<open>cv2.VideoCapture(0)\<close> does not raise when the camera cannot
  be opened, and the result is never inspected: every \<^verbatim>\<open>cap.read()\<close> then returns a
  false flag. The video writer creates its file when it can open it. Opening the audio
  input stream (line 41) raises when there is no usable device. The result is \<open>None\<close>
  when the capture loop has not returned, otherwise the exception that ended the thread or
  the path emitted with \<^verbatim>\<open>finished_recording\<close>, and the world left behind.
  \<open>capture\<close> is lines 43 to 53: the loop started at the reading \<open>clock0\<close> of line 44.
\<close>

definition capture :: "int \<Rightarrow> session_env \<Rightarrow> loop_state option" where
  "capture duration e =
     capture_loop (clock0 e + real_of_int duration)
       \<lparr>next_frame_t = clock0 e, frames_written = 0, sleeps = []\<rparr>
       (map (\<lambda>(t, ret, now). (t, cam_opened e \<and> ret, now)) (trace e))"

definition run :: "int \<Rightarrow> session_env \<Rightarrow> world \<Rightarrow> ((py_error + string) \<times> world) option" where
  "run duration e w =
     (let w1 = (if vw_opened e then create_file (v_tmp_of (ts e)) w else w)
      in if \<not> audio_ok e then Some (Inl PortAudioError, w1)
         else
           (case capture duration e of
              None \<Rightarrow> None
            | Some st \<Rightarrow>
                Some (post_capture duration (ts e) (frames_written st) (audio_frames e)
                        (retime_out e) (mux_out e) w1)))"

subsection \<open>SleepMonitorApp\<close>

datatype status = Idle | Listening | Stopped | Recording | Saved string

record app =
  status :: status
  slider :: int
  dur_box :: int
  mon :: "monitor option"
  rec :: "int option"
  rec_active :: bool

text \<open>The state \<^verbatim>\<open>__init__\<close> leaves (lines 80 to 88).\<close>

definition init_app :: app where
  "init_app = \<lparr>status = Idle, slider = - 30, dur_box = 10, mon = None, rec = None,
               rec_active = False\<rparr>"

text \<open>
  \<^verbatim>\<open>start_mon\<close>: the monitor is created from the slider and started; the first statement
  of its \<^verbatim>\<open>run\<close> sets the flag.
\<close>

definition start_mon :: "app \<Rightarrow> app" where
  "start_mon a = a\<lparr>mon := Some \<lparr>threshold_db = slider a, running = True\<rparr>, status := Listening\<rparr>"

definition stop_mon :: "app \<Rightarrow> app" where
  "stop_mon a = (case mon a of None \<Rightarrow> a | Some m \<Rightarrow> a\<lparr>mon := None, status := Stopped\<rparr>)"

text \<open>\<^verbatim>\<open>on_spike\<close> (lines 94 to 97); \<open>rec\<close> holds the duration given to the new thread.\<close>

definition on_spike :: "app \<Rightarrow> app" where
  "on_spike a =
     (if rec_active a then a
      else a\<lparr>rec_active := True, status := Recording, rec := Some (dur_box a)\<rparr>)"

definition on_done :: "string \<Rightarrow> app \<Rightarrow> app" where
  "on_done f a = a\<lparr>status := Saved f, rec_active := False\<rparr>"

text \<open>The events the application object handles, one at a time, on the GUI thread.\<close>

datatype event = StartMon | StopMon | Spike | Done string | SliderMoved int | DurationSet int

fun handle :: "app \<Rightarrow> event \<Rightarrow> app" where
  "handle a StartMon = start_mon a"
| "handle a StopMon = stop_mon a"
| "handle a Spike = on_spike a"
| "handle a (Done f) = on_done f a"
| "handle a (SliderMoved v) = a\<lparr>slider := v\<rparr>"
| "handle a (DurationSet v) = a\<lparr>dur_box := v\<rparr>"

fun is_done :: "event \<Rightarrow> bool" where
  "is_done (Done f) = True"
| "is_done _ = False"

text \<open>
  What the application does with the outcome of a recorder thread: only the emitted
  signal reaches \<^verbatim>\<open>on_done\<close>; a thread ended by an exception emits nothing.
\<close>

fun after_session :: "(py_error + string) \<Rightarrow> app \<Rightarrow> app" where
  "after_session (Inr f) a = on_done f a"
| "after_session (Inl e) a = a"

section \<open>Properties\<close>

declare digits.simps [simp del]
declare bit_length.simps [simp del]

subsection \<open>The level meter\<close>

lemma sum_list_squares_nonneg: "0 \<le> sum_list (map (\<lambda>x. x ^ 2) (xs :: real list))"
  by (induction xs) auto

lemma sum_list_squares_zero:
  "(\<forall>x\<in>set xs. x = (0::real)) \<Longrightarrow> sum_list (map (\<lambda>x. x ^ 2) xs) = 0"
  by (induction xs) auto

lemma level_nonempty:
  assumes "indata \<noteq> []"
  shows "level indata =
           Fin (20 * log 10 (sqrt (sum_list (map (\<lambda>x. x ^ 2) indata) / real (length indata)) + 1 / 10 ^ 6))"
proof -
  let ?ms = "sum_list (map (\<lambda>x. x ^ 2) indata) / real (length indata)"
  have ms: "0 \<le> ?ms"
    using sum_list_squares_nonneg [of indata] by simp
  have pos: "0 < sqrt ?ms + 1 / 10 ^ 6"
    by (rule add_nonneg_pos) (use ms in simp_all)
  show ?thesis
    using assms ms pos by (simp add: level_def np_mean_def)
qed

lemma log10_floor: "log 10 (1 / 10 ^ 6) = - 6"
proof -
  have "log 10 (1 / 10 ^ 6) = - log 10 ((10::real) ^ 6)"
    by (simp add: log_divide)
  also have "log 10 ((10::real) ^ 6) = 6"
    using log_pow_cancel [of 10 6] by simp
  finally show ?thesis by simp
qed

text \<open>
  Claim C6. For every block with at least one sample the level is the finite number
  \<open>20 * log10 (rms + 1e-6)\<close>, where \<open>rms\<close> is the square root of the mean of the squares
  of all samples. A block of zeros has the level \<open>20 * log10 1e-6\<close>, which is \<open>-120\<close>:
  a finite value, neither \<open>-inf\<close> nor an error.
\<close>

theorem level_meter:
  "(indata \<noteq> [] \<longrightarrow>
      level indata =
        Fin (20 * log 10 (sqrt (sum_list (map (\<lambda>x. x ^ 2) indata) / real (length indata)) + 1 / 10 ^ 6)))
   \<and> (indata \<noteq> [] \<and> (\<forall>x\<in>set indata. x = 0) \<longrightarrow>
        level indata = Fin (20 * log 10 (1 / 10 ^ 6)) \<and> level indata = Fin (- 120))"
  using level_nonempty [of indata] sum_list_squares_zero [of indata] log10_floor by auto

theorem level_meter_witness:
  "[0, 0, 0 :: real] \<noteq> []
   \<and> level [0, 0, 0] = Fin (20 * log 10 (1 / 10 ^ 6)) \<and> level [0, 0, 0] = Fin (- 120)
   \<and> level [3 / 10, - 4 / 10] = Fin (20 * log 10 (sqrt ((9 / 100 + 16 / 100) / 2) + 1 / 10 ^ 6))"
  using level_meter [of "[0, 0, 0]"] level_meter [of "[3 / 10, - 4 / 10]"] log10_floor
  by (simp add: power2_eq_square)

text \<open>
  Claim C7 says that an empty block has the level of the floor alone, \<open>20 * log10 1e-6\<close>.
  It has not: the mean of no samples is \<open>nan\<close>, and so is the level.
\<close>

theorem level_empty_counterexample:
  "level [] \<noteq> Fin (20 * log 10 (1 / 10 ^ 6))"
  by (simp add: level_def np_mean_def)

text \<open>
  Claim C7, amended. The level computation raises no error on an empty block, but its
  result is \<open>nan\<close>, not the level of the floor; as \<open>nan\<close> exceeds no threshold, the callback
  emits no spike for an empty block.
\<close>

theorem level_empty:
  "level [] = NaN \<and> cb m [] = False"
  by (simp add: level_def np_mean_def cb_def)

subsection \<open>The spike monitor\<close>

lemma deliver_filter:
  "deliver m i bs = map (\<lambda>j. i + j) (filter (\<lambda>j. cb m (bs ! j)) [0..<length bs])"
proof (induction bs arbitrary: i)
  case Nil
  then show ?case by simp
next
  case (Cons b bs)
  have up: "[0..<length (b # bs)] = 0 # map Suc [0..<length bs]"
    by (simp add: upt_conv_Cons map_Suc_upt del: upt_Suc)
  show ?case
    unfolding up by (simp add: Cons.IH [of "Suc i"] filter_map o_def)
qed

lemma level_single:
  assumes "0 \<le> a"
  shows "level [a] = Fin (20 * log 10 (a + 1 / 10 ^ 6))"
  using level_nonempty [of "[a]"] assms by simp

lemma floor_le_powr: "- 6 \<le> x \<Longrightarrow> 1 / 10 ^ 6 \<le> (10::real) powr x"
proof -
  assume "- 6 \<le> x"
  then have "(10::real) powr (- 6) \<le> 10 powr x"
    by (intro powr_mono) simp_all
  moreover have "(10::real) powr (- 6) = 1 / 10 ^ 6"
    by (simp add: powr_minus_divide)
  ultimately show ?thesis by simp
qed

text \<open>A one-sample block of a chosen level, for concrete block sequences.\<close>

lemma level_of_db:
  assumes "- 6 \<le> x"
  shows "level [10 powr x - 1 / 10 ^ 6] = Fin (20 * x)"
proof -
  have "0 \<le> 10 powr x - 1 / 10 ^ 6"
    using floor_le_powr [OF assms] by simp
  from level_single [OF this] show ?thesis by simp
qed

text \<open>
  Claim C5. While the monitor is running, the signal is emitted for a block exactly when
  its level is strictly above the threshold, block by block and without any latch: the
  blocks that raise it are exactly those above the threshold. Blocks of levels
  \<open>-40, -20, -10, -35\<close> against the threshold \<open>-30\<close> raise it twice, at positions 1 and 2.
\<close>

theorem spike_per_block:
  "running m \<longrightarrow>
     (cb m b \<longleftrightarrow> np_gt (level b) (real_of_int (threshold_db m)))
     \<and> deliver m 0 bs =
         filter (\<lambda>i. np_gt (level (bs ! i)) (real_of_int (threshold_db m))) [0..<length bs]
     \<and> (threshold_db m = - 30 \<and> map level bs = [Fin (- 40), Fin (- 20), Fin (- 10), Fin (- 35)]
          \<longrightarrow> deliver m 0 bs = [1, 2])"
proof
  assume r: "running m"
  have c: "\<And>x. cb m x = np_gt (level x) (real_of_int (threshold_db m))"
    using r by (simp add: cb_def)
  have d: "deliver m 0 bs =
      filter (\<lambda>i. np_gt (level (bs ! i)) (real_of_int (threshold_db m))) [0..<length bs]"
    by (simp add: deliver_filter c)
  have e: "deliver m 0 bs = [1, 2]"
    if t: "threshold_db m = - 30"
      and l: "map level bs = [Fin (- 40), Fin (- 20), Fin (- 10), Fin (- 35)]"
  proof -
    from l obtain b0 b1 b2 b3 where bs: "bs = [b0, b1, b2, b3]"
      and lv: "level b0 = Fin (- 40)" "level b1 = Fin (- 20)"
              "level b2 = Fin (- 10)" "level b3 = Fin (- 35)"
      by (auto simp: map_eq_Cons_conv)
    show ?thesis
      by (simp add: bs c lv t)
  qed
  show "(cb m b \<longleftrightarrow> np_gt (level b) (real_of_int (threshold_db m)))
     \<and> deliver m 0 bs =
         filter (\<lambda>i. np_gt (level (bs ! i)) (real_of_int (threshold_db m))) [0..<length bs]
     \<and> (threshold_db m = - 30 \<and> map level bs = [Fin (- 40), Fin (- 20), Fin (- 10), Fin (- 35)]
          \<longrightarrow> deliver m 0 bs = [1, 2])"
  proof (intro conjI impI)
    show "cb m b \<longleftrightarrow> np_gt (level b) (real_of_int (threshold_db m))"
      by (rule c)
    show "deliver m 0 bs =
         filter (\<lambda>i. np_gt (level (bs ! i)) (real_of_int (threshold_db m))) [0..<length bs]"
      by (rule d)
    assume "threshold_db m = - 30 \<and> map level bs = [Fin (- 40), Fin (- 20), Fin (- 10), Fin (- 35)]"
    then show "deliver m 0 bs = [1, 2]"
      using e by simp
  qed
qed

theorem spike_per_block_witness:
  "running \<lparr>threshold_db = - 30, running = True\<rparr>
   \<and> map level [[10 powr (- 2) - 1 / 10 ^ 6], [10 powr (- 1) - 1 / 10 ^ 6],
                 [10 powr (- 1 / 2) - 1 / 10 ^ 6], [10 powr (- 7 / 4) - 1 / 10 ^ 6]]
       = [Fin (- 40), Fin (- 20), Fin (- 10), Fin (- 35)]
   \<and> deliver \<lparr>threshold_db = - 30, running = True\<rparr> 0
        [[10 powr (- 2) - 1 / 10 ^ 6], [10 powr (- 1) - 1 / 10 ^ 6],
         [10 powr (- 1 / 2) - 1 / 10 ^ 6], [10 powr (- 7 / 4) - 1 / 10 ^ 6]] = [1, 2]"
proof -
  have l: "map level [[10 powr (- 2) - 1 / 10 ^ 6], [10 powr (- 1) - 1 / 10 ^ 6],
                 [10 powr (- 1 / 2) - 1 / 10 ^ 6], [10 powr (- 7 / 4) - 1 / 10 ^ 6]]
       = [Fin (- 40), Fin (- 20), Fin (- 10), Fin (- 35)]"
    using level_of_db [of "- 2"] level_of_db [of "- 1"] level_of_db [of "- 1 / 2"]
      level_of_db [of "- 7 / 4"] by simp
  show ?thesis
    using l spike_per_block [of "\<lparr>threshold_db = - 30, running = True\<rparr>" "[]"
        "[[10 powr (- 2) - 1 / 10 ^ 6], [10 powr (- 1) - 1 / 10 ^ 6],
          [10 powr (- 1 / 2) - 1 / 10 ^ 6], [10 powr (- 7 / 4) - 1 / 10 ^ 6]]"]
    by simp
qed

subsection \<open>The paced capture loop\<close>

lemma loop_body_fields:
  "next_frame_t (loop_body st ret now) = next_frame_t st + 1 / 20"
  "frames_written (loop_body st ret now) = frames_written st + (if ret then 1 else 0)"
  "sleeps (loop_body st ret now) =
     sleeps st @ [if now < next_frame_t st + 1 / 20 then Some (next_frame_t st + 1 / 20 - now) else None]"
  by (simp_all add: loop_body_def Let_def frame_interval_def fps_target_def)




subsection \<open>Binary floating point\<close>

lemma rhe_div_near:
  assumes "0 < d"
  shows "\<bar>real (rhe_div n d) - real n / real d\<bar> \<le> 1 / 2"
proof -
  define q where "q = n div d"
  define r where "r = n mod d"
  have n: "real n = real q * real d + real r"
    unfolding q_def r_def by (metis div_mult_mod_eq of_nat_add of_nat_mult)
  have d: "0 < real d" using assms by simp
  have frac: "real n / real d = real q + real r / real d"
    using d by (simp add: n field_simps)
  have rd: "r < d" unfolding r_def using assms by simp
  consider "2 * r < d" | "d < 2 * r" | "2 * r = d" by linarith
  then show ?thesis
  proof cases
    case 1
    then have v: "rhe_div n d = q"
      by (simp add: rhe_div_def Let_def q_def r_def)
    have "real r / real d \<le> 1 / 2"
      using 1 d by (simp add: field_simps)
    then show ?thesis
      unfolding v frac using d by simp
  next
    case 2
    then have v: "rhe_div n d = q + 1"
      by (simp add: rhe_div_def Let_def q_def r_def)
    have a: "1 / 2 \<le> real r / real d"
      using 2 d by (simp add: field_simps)
    have b: "real r / real d \<le> 1"
      using rd d by (simp add: field_simps)
    show ?thesis
      unfolding v frac using a b by simp
  next
    case 3
    then have h: "real r / real d = 1 / 2"
      using d by (simp add: field_simps)
    have "rhe_div n d = q \<or> rhe_div n d = q + 1"
      using 3 by (simp add: rhe_div_def Let_def q_def r_def)
    then show ?thesis
      unfolding frac h by auto
  qed
qed

lemma pow2_pos: "0 < pow2 k"
  by (simp add: pow2_def)

lemma pow2_ratio: "real (pow2 k) / real (pow2 (- k)) = 2 powi k"
  by (cases "0 \<le> k") (simp_all add: pow2_def power_int_def power_inverse field_simps)

lemma bit_length_bounds:
  "0 < n \<Longrightarrow> 2 ^ (bit_length n - 1) \<le> n \<and> n < 2 ^ bit_length n"
proof (induction n rule: bit_length.induct)
  case (1 n)
  show ?case
  proof (cases "n div 2 = 0")
    case True
    with 1 have "n = 1" by linarith
    then show ?thesis
      by (simp add: bit_length.simps)
  next
    case False
    with 1 have ih: "2 ^ (bit_length (n div 2) - 1) \<le> n div 2 \<and> n div 2 < 2 ^ bit_length (n div 2)"
      by simp
    have pos: "0 < bit_length (n div 2)"
      using False by (subst bit_length.simps) simp
    have bl: "bit_length n = Suc (bit_length (n div 2))"
      using 1 by (subst bit_length.simps) simp
    have "2 * 2 ^ (bit_length (n div 2) - 1) \<le> n"
      using ih by linarith
    moreover have "2 * 2 ^ (bit_length (n div 2) - 1) = (2::nat) ^ bit_length (n div 2)"
      using pos by (cases "bit_length (n div 2)") simp_all
    moreover have "n < 2 * 2 ^ bit_length (n div 2)"
      using ih by linarith
    ultimately show ?thesis
      by (simp add: bl)
  qed
qed

lemma bit_length_real_bounds:
  assumes "0 < n"
  shows "2 powi (int (bit_length n) - 1) \<le> real n" and "real n < 2 powi int (bit_length n)"
proof -
  from bit_length_bounds [OF assms]
  have l: "2 ^ (bit_length n - 1) \<le> n" and u: "n < 2 ^ bit_length n"
    by simp_all
  have pos: "0 < bit_length n"
    using assms by (subst bit_length.simps) simp
  then have "int (bit_length n) - 1 = int (bit_length n - 1)"
    by simp
  then have "(2::real) powi (int (bit_length n) - 1) = 2 ^ (bit_length n - 1)"
    by (simp only: power_int_of_nat)
  also have "\<dots> = real (2 ^ (bit_length n - 1))"
    by simp
  also have "\<dots> \<le> real n"
    using l by (simp only: of_nat_le_iff)
  finally show "2 powi (int (bit_length n) - 1) \<le> real n" .
  have "real n < real (2 ^ bit_length n)"
    using u by (simp only: of_nat_less_iff)
  then show "real n < 2 powi int (bit_length n)"
    by simp
qed

lemma ratio_exponent:
  assumes p: "0 < p" and q: "0 < q"
    and k: "k = int (bit_length p) - int (bit_length q)"
    and e0: "e0 = (if q * pow2 k \<le> p * pow2 (- k) then k else k - 1)"
  shows "2 powi e0 \<le> real p / real q" and "real p / real q < 2 powi (e0 + 1)"
proof -
  let ?bp = "int (bit_length p)" and ?bq = "int (bit_length q)"
  have P: "0 < real p" and Q: "0 < real q" using p q by simp_all
  note pb = bit_length_real_bounds [OF p]
  note qb = bit_length_real_bounds [OF q]
  have lower: "2 powi (k - 1) \<le> real p / real q"
  proof -
    have "(2::real) powi (k - 1) = 2 powi (?bp - 1) / 2 powi ?bq"
      unfolding k by (subst power_int_diff [symmetric]) (simp_all add: algebra_simps)
    also have "\<dots> \<le> real p / real q"
      by (rule frac_le) (use pb qb P Q in simp_all)
    finally show ?thesis .
  qed
  have upper: "real p / real q < 2 powi (k + 1)"
  proof -
    have "real p / real q < 2 powi ?bp / 2 powi (?bq - 1)"
      by (rule frac_less) (use pb qb P Q in simp_all)
    also have "\<dots> = 2 powi (k + 1)"
      unfolding k by (subst power_int_diff [symmetric]) (simp_all add: algebra_simps)
    finally show ?thesis .
  qed
  have cond: "(q * pow2 k \<le> p * pow2 (- k)) \<longleftrightarrow> 2 powi k \<le> real p / real q"
  proof -
    have a: "0 < real (pow2 k)" "0 < real (pow2 (- k))"
      using pow2_pos by simp_all
    have "(q * pow2 k \<le> p * pow2 (- k)) \<longleftrightarrow> real q * real (pow2 k) \<le> real p * real (pow2 (- k))"
      by (metis of_nat_le_iff of_nat_mult)
    also have "\<dots> \<longleftrightarrow> real (pow2 k) / real (pow2 (- k)) \<le> real p / real q"
      using a Q by (simp add: field_simps)
    finally show ?thesis
      by (simp only: pow2_ratio)
  qed
  show "2 powi e0 \<le> real p / real q"
    using lower cond by (simp add: e0)
  show "real p / real q < 2 powi (e0 + 1)"
    using upper cond by (simp add: e0)
qed

lemma round_ratio_accurate:
  assumes p: "0 < p" and q: "0 < q" and n: "2 powi (- 1022) \<le> real p / real q"
  shows "\<bar>real (fst (round_ratio p q)) * 2 powi snd (round_ratio p q) - real p / real q\<bar>
           \<le> (real p / real q) / 2 ^ 53"
proof -
  define k where "k = int (bit_length p) - int (bit_length q)"
  define e0 where "e0 = (if q * pow2 k \<le> p * pow2 (- k) then k else k - 1)"
  define e where "e = e0 - 52"
  define m where "m = rhe_div (p * pow2 (- e)) (q * pow2 e)"
  let ?x = "real p / real q"
  note b = ratio_exponent [OF p q k_def e0_def]
  have "(2::real) powi (- 1022) < 2 powi (e0 + 1)"
    using n b(2) by linarith
  then have "- 1022 < e0 + 1"
    using power_int_increasing [of "e0 + 1" "- 1022" "2::real"] by force
  then have emax: "max (e0 - 52) (- 1074) = e"
    by (simp add: e_def)
  have pe: "0 < (2::real) powi e" by simp
  have scaled: "real (p * pow2 (- e)) / real (q * pow2 e) = ?x / 2 powi e"
  proof -
    have "real (p * pow2 (- e)) / real (q * pow2 e)
        = ?x / (real (pow2 e) / real (pow2 (- e)))"
      by simp
    then show ?thesis
      by (simp only: pow2_ratio)
  qed
  have "0 < q * pow2 e"
    using q pow2_pos by simp
  from rhe_div_near [OF this, of "p * pow2 (- e)"]
  have near: "\<bar>real m - ?x / 2 powi e\<bar> \<le> 1 / 2"
    by (simp only: m_def scaled)
  have "(2::real) powi e0 / 2 powi e = 2 powi (e0 - e)"
    by (subst power_int_diff) simp_all
  also have "\<dots> = 2 ^ 52"
    by (simp add: e_def)
  finally have big: "2 ^ 52 \<le> ?x / 2 powi e"
    using b(1) pe by (metis divide_right_mono less_eq_real_def)
  have m0: "m \<noteq> 0"
  proof
    assume "m = 0"
    with near have "?x / 2 powi e \<le> 1 / 2" by simp
    moreover have "(1::real) \<le> 2 ^ 52" by simp
    ultimately show False using big by linarith
  qed
  have rr: "round_ratio p q = (if m = 2 ^ 53 then (2 ^ 52, e + 1) else (m, e))"
    using p m0
    by (simp add: round_ratio_def Let_def k_def [symmetric] e0_def [symmetric] emax m_def [symmetric])
  have v: "real (fst (round_ratio p q)) * 2 powi snd (round_ratio p q) = real m * 2 powi e"
  proof (cases "m = 2 ^ 53")
    case True
    have "(2::real) powi (e + 1) = 2 powi e * 2"
      by (subst power_int_add) simp_all
    with True show ?thesis
      by (simp add: rr)
  next
    case False
    then show ?thesis by (simp add: rr)
  qed
  have "\<bar>real m * 2 powi e - ?x\<bar> = 2 powi e * \<bar>real m - ?x / 2 powi e\<bar>"
  proof -
    have "real m * 2 powi e - ?x = 2 powi e * (real m - ?x / 2 powi e)"
      using pe by (simp add: field_simps)
    then show ?thesis
      using pe by (simp add: abs_mult)
  qed
  also have "\<dots> \<le> 2 powi e * (1 / 2)"
    using near pe by (intro mult_left_mono) simp_all
  also have "\<dots> = 2 powi e0 / 2 ^ 53"
  proof -
    have "(2::real) powi e0 = 2 powi (e + 52)"
      by (simp add: e_def)
    also have "\<dots> = 2 powi e * 2 ^ 52"
      by (subst power_int_add) simp_all
    finally show ?thesis by simp
  qed
  also have "\<dots> \<le> ?x / 2 ^ 53"
    using b(1) by (simp add: divide_right_mono)
  finally show ?thesis
    by (simp only: v)
qed

lemma py_truediv_total: "d \<noteq> 0 \<Longrightarrow> \<exists>x. py_truediv f d = Inr x"
  by (simp add: py_truediv_def split: prod.splits)

lemma actual_fps_total: "\<exists>x. actual_fps_of f d = Inr x"
  using py_truediv_total [of d f] by (simp add: actual_fps_of_def)

lemma py_truediv_accurate:
  assumes d: "d \<noteq> 0" and small: "\<bar>d\<bar> < 2 ^ 1022" and x: "py_truediv f d = Inr x"
  shows "\<bar>dval x - real f / real_of_int d\<bar> \<le> \<bar>real f / real_of_int d\<bar> / 2 ^ 53"
proof (cases "f = 0")
  case True
  with d x show ?thesis
    by (auto simp: py_truediv_def round_ratio_def dval_def)
next
  case False
  define q where "q = nat \<bar>d\<bar>"
  define s :: real where "s = (if d < 0 then - 1 else 1)"
  have q: "0 < q" using d by (simp add: q_def)
  have f: "0 < f" using False by simp
  have rq: "real q = \<bar>real_of_int d\<bar>"
    by (simp add: q_def)
  have sd: "real_of_int d = s * real q"
    by (simp add: s_def rq)
  have s1: "\<bar>s\<bar> = 1" by (simp add: s_def)
  have "real q < 2 ^ 1022"
  proof -
    have "real_of_int \<bar>d\<bar> < real_of_int (2 ^ 1022)"
      using small by (simp only: of_int_less_iff)
    then show ?thesis by (simp add: rq)
  qed
  moreover have "1 \<le> real f" using f by simp
  ultimately have "1 / 2 ^ 1022 \<le> real f / real q"
    using q by (intro frac_le) simp_all
  moreover have "(2::real) powi (- 1022) = 1 / 2 ^ 1022"
    by (simp add: power_int_minus_divide)
  ultimately have n: "2 powi (- 1022) \<le> real f / real q"
    by simp
  note acc = round_ratio_accurate [OF f q n]
  obtain m e where rr: "round_ratio f q = (m, e)"
    by (cases "round_ratio f q")
  have xv: "x = Double (d < 0) m e"
    using x d rr by (simp add: py_truediv_def q_def)
  have dv: "dval x = s * (real m * 2 powi e)"
    by (simp add: xv dval_def s_def)
  have fd: "real f / real_of_int d = s * (real f / real q)"
    by (simp add: sd s_def)
  have "\<bar>dval x - real f / real_of_int d\<bar> = \<bar>s * (real m * 2 powi e - real f / real q)\<bar>"
    by (simp add: dv fd algebra_simps)
  also have "\<dots> = \<bar>real m * 2 powi e - real f / real q\<bar>"
    by (simp add: abs_mult s1)
  also have "\<dots> \<le> (real f / real q) / 2 ^ 53"
    using acc by (simp add: rr)
  also have "\<dots> = \<bar>real f / real_of_int d\<bar> / 2 ^ 53"
    by (simp add: fd abs_mult s1)
  finally show ?thesis .
qed

lemma digit_char_mem: "d < 10 \<Longrightarrow> digit_char d \<in> set ''0123456789''"
  unfolding digit_char_def by (rule nth_mem) simp

lemma digit_value_digit_char: "d < 10 \<Longrightarrow> digit_value (digit_char d) = d"
proof -
  assume "d < 10"
  then have "d = 0 \<or> d = 1 \<or> d = 2 \<or> d = 3 \<or> d = 4 \<or> d = 5 \<or> d = 6 \<or> d = 7
    \<or> d = 8 \<or> d = 9"
    by arith
  then show ?thesis
    by (elim disjE) (simp_all add: digit_char_def digit_value_def)
qed

lemma read_digits_acc:
  "foldl (\<lambda>n c. 10 * n + digit_value c) a s = a * 10 ^ length s + read_digits s"
proof (induction s arbitrary: a)
  case Nil
  then show ?case by (simp add: read_digits_def)
next
  case (Cons c s)
  have "foldl (\<lambda>n c. 10 * n + digit_value c) a (c # s)
      = (10 * a + digit_value c) * 10 ^ length s + read_digits s"
    by (simp add: Cons.IH)
  moreover have "read_digits (c # s) = digit_value c * 10 ^ length s + read_digits s"
    using Cons.IH [of "digit_value c"] by (simp add: read_digits_def)
  ultimately show ?case
    by (simp add: algebra_simps)
qed

lemma read_digits_append:
  "read_digits (a @ b) = read_digits a * 10 ^ length b + read_digits b"
  using read_digits_acc [of "read_digits a" b] by (simp add: read_digits_def)

lemma read_digits_single: "read_digits [c] = digit_value c"
  by (simp add: read_digits_def)

lemma read_digits_digits: "read_digits (digits n) = n"
proof (induction n rule: digits.induct)
  case (1 n)
  show ?case
  proof (cases "n < 10")
    case True
    then show ?thesis
      by (subst digits.simps) (simp add: read_digits_single digit_value_digit_char)
  next
    case False
    have "n mod 10 < 10" by simp
    then have "digit_value (digit_char (n mod 10)) = n mod 10"
      by (rule digit_value_digit_char)
    with False 1 show ?thesis
      by (subst digits.simps) (simp add: read_digits_append read_digits_single)
  qed
qed

lemma read_digits_zeros: "read_digits (replicate k (CHR ''0'') @ s) = read_digits s"
proof (induction k)
  case 0
  then show ?case by simp
next
  case (Suc k)
  have "read_digits (CHR ''0'' # replicate k (CHR ''0'') @ s)
      = read_digits [CHR ''0''] * 10 ^ length (replicate k (CHR ''0'') @ s)
        + read_digits (replicate k (CHR ''0'') @ s)"
    using read_digits_append [of "[CHR ''0'']" "replicate k (CHR ''0'') @ s"] by simp
  then show ?case
    by (simp add: Suc read_digits_single digit_value_def)
qed

lemma read_digits_pad4: "read_digits (pad4 n) = n"
  by (simp add: pad4_def read_digits_zeros read_digits_digits)

lemma digits_are_digits: "set (digits n) \<subseteq> set ''0123456789''"
proof (induction n rule: digits.induct)
  case (1 n)
  show ?case
  proof (cases "n < 10")
    case True
    then show ?thesis
      using digit_char_mem [of n] by (subst digits.simps) simp
  next
    case False
    have "n mod 10 < 10" by simp
    then have "digit_char (n mod 10) \<in> set ''0123456789''"
      by (rule digit_char_mem)
    with False 1 show ?thesis
      by (subst digits.simps) simp
  qed
qed

lemma digits_nonempty: "digits n \<noteq> []"
  by (subst digits.simps) simp

lemma length_digits_le: "0 < k \<Longrightarrow> n < 10 ^ k \<Longrightarrow> length (digits n) \<le> k"
proof (induction k arbitrary: n)
  case 0
  then show ?case by simp
next
  case (Suc k)
  show ?case
  proof (cases "n < 10")
    case True
    then show ?thesis by (subst digits.simps) simp
  next
    case False
    then have k: "0 < k" using Suc.prems by (cases k) auto
    have "n div 10 < 10 ^ k"
      using Suc.prems by (simp add: less_mult_imp_div_less mult.commute)
    from Suc.IH [OF k this] False show ?thesis
      by (subst digits.simps) simp
  qed
qed

lemma length_pad4: "n < 10000 \<Longrightarrow> length (pad4 n) = 4"
  using length_digits_le [of 4 n] by (simp add: pad4_def)

lemma pad4_are_digits: "set (pad4 n) \<subseteq> set ''0123456789''"
  using digits_are_digits [of n] by (auto simp: pad4_def)

lemma fmt4f_shape:
  "\<exists>ip fp. fmt4f x = (if negative x then ''-'' else []) @ ip @ ''.'' @ fp
      \<and> ip \<noteq> [] \<and> length fp = 4 \<and> set (ip @ fp) \<subseteq> set ''0123456789''
      \<and> \<bar>real (read_digits (ip @ fp)) - \<bar>dval x\<bar> * 10000\<bar> \<le> 1 / 2"
proof -
  define n where "n = rhe_div (mant x * 10000 * pow2 (expo x)) (pow2 (- expo x))"
  have f: "fmt4f x = (if negative x then ''-'' else []) @ digits (n div 10000) @ ''.'' @ pad4 (n mod 10000)"
    by (simp add: fmt4f_def Let_def n_def)
  have l: "length (pad4 (n mod 10000)) = 4"
    by (rule length_pad4) simp
  have d: "set (digits (n div 10000) @ pad4 (n mod 10000)) \<subseteq> set ''0123456789''"
    using digits_are_digits [of "n div 10000"] pad4_are_digits [of "n mod 10000"]
    by (simp del: set_simps list.set)
  have r: "read_digits (digits (n div 10000) @ pad4 (n mod 10000)) = n"
    by (simp add: read_digits_append l read_digits_digits read_digits_pad4)
  have "real (mant x * 10000 * pow2 (expo x)) / real (pow2 (- expo x))
      = real (mant x) * 10000 * (real (pow2 (expo x)) / real (pow2 (- expo x)))"
    by simp
  also have "\<dots> = real (mant x) * 10000 * 2 powi expo x"
    by (simp only: pow2_ratio)
  also have "\<dots> = \<bar>dval x\<bar> * 10000"
    by (simp add: dval_def abs_mult)
  finally have v: "real (mant x * 10000 * pow2 (expo x)) / real (pow2 (- expo x)) = \<bar>dval x\<bar> * 10000" .
  have "\<bar>real n - \<bar>dval x\<bar> * 10000\<bar> \<le> 1 / 2"
    using rhe_div_near [OF pow2_pos, of "mant x * 10000 * pow2 (expo x)" "- expo x"]
    by (simp only: n_def v)
  then have b: "\<bar>real (read_digits (digits (n div 10000) @ pad4 (n mod 10000)))
      - \<bar>dval x\<bar> * 10000\<bar> \<le> 1 / 2"
    by (simp only: r)
  have "fmt4f x = (if negative x then ''-'' else []) @ digits (n div 10000) @ ''.'' @ pad4 (n mod 10000)
      \<and> digits (n div 10000) \<noteq> [] \<and> length (pad4 (n mod 10000)) = 4
      \<and> set (digits (n div 10000) @ pad4 (n mod 10000)) \<subseteq> set ''0123456789''
      \<and> \<bar>real (read_digits (digits (n div 10000) @ pad4 (n mod 10000)))
          - \<bar>dval x\<bar> * 10000\<bar> \<le> 1 / 2"
    using f l d b digits_nonempty by (intro conjI)
  then show ?thesis
    by (intro exI)
qed

lemma replicate_numeral_unfold: "replicate (numeral k) x = x # replicate (pred_numeral k) x"
  by (simp add: numeral_eq_Suc)

lemmas float_eval =
  round_ratio_def pow2_def Let_def rhe_div_def bit_length.simps py_truediv_def
  float_sub_int_def float_abs_def float_less_def float_of_int_def fps_target_def

lemmas fmt_eval =
  fmt4f_def pow2_def Let_def rhe_div_def pad4_def digits.simps digit_char_def
  replicate_numeral_unfold

lemma float_0_1_eq: "float_0_1 = Double False 7205759403792794 (- 56)"
  by (simp add: float_0_1_def float_eval)

lemma float_target_eq: "float_of_int fps_target = Double False 5629499534213120 (- 48)"
  by (simp add: float_eval)

lemma dval_target: "dval (float_of_int fps_target) = 20"
  by (simp add: float_target_eq dval_def power_int_minus_divide)

lemma float_less_dval: "float_less x y \<longleftrightarrow> dval x < dval y"
proof -
  define sx :: int where "sx = (if negative x then - 1 else 1)"
  define sy :: int where "sy = (if negative y then - 1 else 1)"
  have px: "0 < real (pow2 (- expo x))" and py: "0 < real (pow2 (- expo y))"
    using pow2_pos by simp_all
  have dx: "dval x = real_of_int sx * real (mant x) * (real (pow2 (expo x)) / real (pow2 (- expo x)))"
    by (simp only: pow2_ratio) (simp add: dval_def sx_def)
  have dy: "dval y = real_of_int sy * real (mant y) * (real (pow2 (expo y)) / real (pow2 (- expo y)))"
    by (simp only: pow2_ratio) (simp add: dval_def sy_def)
  have "float_less x y \<longleftrightarrow>
      sx * int (mant x) * int (pow2 (expo x)) * int (pow2 (- expo y))
        < sy * int (mant y) * int (pow2 (expo y)) * int (pow2 (- expo x))"
    by (simp add: float_less_def sx_def sy_def)
  also have "\<dots> \<longleftrightarrow>
      real_of_int (sx * int (mant x) * int (pow2 (expo x)) * int (pow2 (- expo y)))
        < real_of_int (sy * int (mant y) * int (pow2 (expo y)) * int (pow2 (- expo x)))"
    by (simp only: of_int_less_iff)
  also have "\<dots> \<longleftrightarrow>
      real_of_int sx * real (mant x) * real (pow2 (expo x)) * real (pow2 (- expo y))
        < real_of_int sy * real (mant y) * real (pow2 (expo y)) * real (pow2 (- expo x))"
    by simp
  also have "\<dots> \<longleftrightarrow> dval x < dval y"
    unfolding dx dy using px py by (simp add: field_simps)
  finally show ?thesis .
qed

lemma dval_float_abs: "dval (float_abs x) = \<bar>dval x\<bar>"
  by (simp add: float_abs_def dval_def abs_mult)

lemma needs_retime_dval:
  "needs_retime x \<longleftrightarrow> dval float_0_1 < \<bar>dval (float_sub_int x fps_target)\<bar>"
  by (simp add: needs_retime_def float_less_dval dval_float_abs)

lemma float_sub_int_accurate:
  assumes "2 powi (- 1022) \<le> \<bar>dval x - real_of_int n\<bar>"
  shows "\<bar>dval (float_sub_int x n) - (dval x - real_of_int n)\<bar>
           \<le> \<bar>dval x - real_of_int n\<bar> / 2 ^ 53"
proof -
  define num where "num = (if negative x then - 1 else 1) * int (mant x) * int (pow2 (expo x))
                  - n * int (pow2 (- expo x))"
  define den where "den = pow2 (- expo x)"
  have den: "0 < den" by (simp add: den_def pow2_pos)
  have "real_of_int num / real den
      = (if negative x then - 1 else 1) * real (mant x) * (real (pow2 (expo x)) / real (pow2 (- expo x)))
        - real_of_int n"
    using den by (simp add: num_def den_def field_simps)
  also have "\<dots> = dval x - real_of_int n"
    by (simp only: pow2_ratio) (simp add: dval_def)
  finally have q: "real_of_int num / real den = dval x - real_of_int n" .
  have "(0::real) < 2 powi (- 1022)" by simp
  with assms have nz: "dval x - real_of_int n \<noteq> 0" by linarith
  with q have num0: "num \<noteq> 0" by auto
  define s :: real where "s = (if num < 0 then - 1 else 1)"
  have s1: "\<bar>s\<bar> = 1" by (simp add: s_def)
  have an: "real (nat \<bar>num\<bar>) = s * real_of_int num"
    by (simp add: s_def)
  have ratio: "real (nat \<bar>num\<bar>) / real den = \<bar>dval x - real_of_int n\<bar>"
    using den by (simp add: q [symmetric] abs_divide)
  have p: "0 < nat \<bar>num\<bar>" using num0 by simp
  have "2 powi (- 1022) \<le> real (nat \<bar>num\<bar>) / real den"
    using assms by (simp only: ratio)
  note acc = round_ratio_accurate [OF p den this]
  obtain m e where rr: "round_ratio (nat \<bar>num\<bar>) den = (m, e)"
    by (cases "round_ratio (nat \<bar>num\<bar>) den")
  have "float_sub_int x n =
      (if num = 0 then Double (negative x \<and> mant x = 0) 0 0
       else case round_ratio (nat \<bar>num\<bar>) den of (m, e) \<Rightarrow> Double (num < 0) m e)"
    unfolding float_sub_int_def Let_def num_def den_def ..
  then have r: "float_sub_int x n = Double (num < 0) m e"
    using num0 rr by simp
  have dv: "dval (float_sub_int x n) = s * (real m * 2 powi e)"
    by (simp add: r dval_def s_def)
  have sq: "dval x - real_of_int n = s * (real (nat \<bar>num\<bar>) / real den)"
  proof -
    have "s * (real (nat \<bar>num\<bar>) / real den) = s * s * (real_of_int num / real den)"
      by (simp add: an)
    also have "s * s = 1" by (simp add: s_def)
    finally show ?thesis by (simp add: q)
  qed
  have "\<bar>dval (float_sub_int x n) - (dval x - real_of_int n)\<bar>
      = \<bar>s * (real m * 2 powi e - real (nat \<bar>num\<bar>) / real den)\<bar>"
    by (simp only: dv sq) (simp add: algebra_simps)
  also have "\<dots> = \<bar>real m * 2 powi e - real (nat \<bar>num\<bar>) / real den\<bar>"
    by (simp add: abs_mult s1)
  also have "\<dots> \<le> (real (nat \<bar>num\<bar>) / real den) / 2 ^ 53"
    using acc by (simp add: rr)
  finally show ?thesis
    by (simp only: ratio)
qed

text \<open>Sessions of 10 s with 180, 200 and 201 frames, and one of 160 s with 2881 frames.\<close>

lemma rate_180: "py_truediv 180 10 = Inr (Double False 5066549580791808 (- 48))"
  by (simp add: float_eval)

lemma rate_180_value: "dval (Double False 5066549580791808 (- 48)) = 18"
  by (simp add: dval_def power_int_minus_divide)

lemma rate_180_retime: "needs_retime (Double False 5066549580791808 (- 48))"
  by (simp add: needs_retime_def float_0_1_eq float_eval)

lemma rate_180_fmt: "fmt4f (Double False 5066549580791808 (- 48)) = ''18.0000''"
  by (simp add: fmt_eval)

lemma rate_200: "py_truediv 200 10 = Inr (float_of_int fps_target)"
  by (simp add: float_eval)

lemma rate_200_retime: "\<not> needs_retime (float_of_int fps_target)"
  by (simp add: needs_retime_def float_0_1_eq float_eval)

lemma rate_201: "py_truediv 201 10 = Inr (Double False 5657647031884186 (- 48))"
  by (simp add: float_eval)

lemma rate_201_retime: "needs_retime (Double False 5657647031884186 (- 48))"
  by (simp add: needs_retime_def float_0_1_eq float_eval)

lemma rate_201_fmt: "fmt4f (Double False 5657647031884186 (- 48)) = ''20.1000''"
  by (simp add: fmt_eval)

lemma rate_2881: "py_truediv 2881 160 = Inr (Double False 5068308799396250 (- 48))"
  by (simp add: float_eval)

lemma rate_2881_retime: "needs_retime (Double False 5068308799396250 (- 48))"
  by (simp add: needs_retime_def float_0_1_eq float_eval)

lemma rate_2881_fmt: "fmt4f (Double False 5068308799396250 (- 48)) = ''18.0063''"
  by (simp add: fmt_eval)

lemma rate_1_10: "py_truediv 1 10 = Inr (Double False 7205759403792794 (- 56))"
  by (simp add: float_eval)

lemma rate_1_10_retime: "needs_retime (Double False 7205759403792794 (- 56))"
  by (simp add: needs_retime_def float_0_1_eq float_eval)

lemma rate_1_10_fmt: "fmt4f (Double False 7205759403792794 (- 56)) = ''0.1000''"
  by (simp add: fmt_eval)

lemma rate_0_10: "py_truediv 0 10 = Inr (Double False 0 0)"
  by (simp add: float_eval)

lemma rate_0_retime: "needs_retime (Double False 0 0)"
  by (simp add: needs_retime_def float_0_1_eq float_eval)

lemma rate_0_fmt: "fmt4f (Double False 0 0) = ''0.0000''"
  by (simp add: fmt_eval)

lemma rate_2_1: "py_truediv 2 1 = Inr (Double False 4503599627370496 (- 51))"
  by (simp add: float_eval)

lemma rate_2_retime: "needs_retime (Double False 4503599627370496 (- 51))"
  by (simp add: needs_retime_def float_0_1_eq float_eval)

lemma rate_2_fmt: "fmt4f (Double False 4503599627370496 (- 51)) = ''2.0000''"
  by (simp add: fmt_eval)

lemma rate_199: "py_truediv 199 10 = Inr (Double False 5601352036542054 (- 48))"
  by (simp add: float_eval)

lemma rate_199_retime: "needs_retime (Double False 5601352036542054 (- 48))"
  by (simp add: needs_retime_def float_0_1_eq float_eval)

lemma rate_199_fmt: "fmt4f (Double False 5601352036542054 (- 48)) = ''19.9000''"
  by (simp add: fmt_eval)

lemma rate_1_32: "py_truediv 1 32 = Inr (Double False 4503599627370496 (- 57))"
  by (simp add: float_eval)

lemma rate_1_32_fmt: "fmt4f (Double False 4503599627370496 (- 57)) = ''0.0312''"
  by (simp add: fmt_eval)

lemma rate_3_32: "py_truediv 3 32 = Inr (Double False 6755399441055744 (- 56))"
  by (simp add: float_eval)

lemma rate_3_32_fmt: "fmt4f (Double False 6755399441055744 (- 56)) = ''0.0938''"
  by (simp add: fmt_eval)

lemma rate_2001: "py_truediv 2001 100 = Inr (Double False 5632314283980227 (- 48))"
  by (simp add: float_eval)

lemma rate_2001_retime: "\<not> needs_retime (Double False 5632314283980227 (- 48))"
  by (simp add: needs_retime_def float_0_1_eq float_eval)

lemma dval_float_0_1: "dval float_0_1 = 3602879701896397 / 36028797018963968"
  by (simp add: float_0_1_eq dval_def power_int_minus_divide)

subsection \<open>Finalising a session\<close>

lemma names_distinct:
  "v_tmp_of t \<noteq> a_tmp_of t" "v_tmp_of t \<noteq> fixed_video_of t" "v_tmp_of t \<noteq> final_of t"
  "a_tmp_of t \<noteq> fixed_video_of t" "a_tmp_of t \<noteq> final_of t" "fixed_video_of t \<noteq> final_of t"
  by (simp_all add: v_tmp_of_def a_tmp_of_def fixed_video_of_def final_of_def)

lemma mux_calls:
  "calls (snd (mux_and_cleanup v a f mo w)) = calls w @ [mux_cmd v a f]"
  by (cases mo)
    (auto simp: mux_and_cleanup_def os_remove_def create_file_def Let_def split: sum.splits)

lemma mux_no_zero_division:
  "fst (mux_and_cleanup v a f mo w) \<noteq> Inl ZeroDivisionError"
  by (cases mo)
    (auto simp: mux_and_cleanup_def os_remove_def create_file_def Let_def split: sum.splits)

lemma mux_created:
  "created (snd (mux_and_cleanup v a f mo w)) =
     created w @ (case mo of ToolMissing \<Rightarrow> [] | Exited s wrote \<Rightarrow> if wrote then [f] else [])"
  by (cases mo) (simp_all add: mux_and_cleanup_def os_remove_def create_file_def Let_def)

lemma mux_keeps_created:
  "p \<in> set (created w) \<Longrightarrow> p \<in> set (created (snd (mux_and_cleanup v a f mo w)))"
  by (simp add: mux_created)

lemma actual_fps_of_nonzero: "d \<noteq> 0 \<Longrightarrow> actual_fps_of f d = py_truediv f d"
  by (simp add: actual_fps_of_def)

lemma actual_fps_of_zero: "actual_fps_of f 0 = Inr (float_of_int fps_target)"
  by (simp add: actual_fps_of_def)

lemma post_capture_unfold:
  assumes "audio \<noteq> []" "actual_fps_of f d = Inr x"
  shows "post_capture d t f audio ro mo w =
     (if needs_retime x then
        (case subprocess_run (retime_cmd (v_tmp_of t) x (fixed_video_of t)) (fixed_video_of t) ro
                (create_file (a_tmp_of t) w) of
           (Some e, w2) \<Rightarrow> (Inl e, w2)
         | (None, w2) \<Rightarrow>
             (case os_remove (v_tmp_of t) w2 of
                Inl e \<Rightarrow> (Inl e, w2)
              | Inr w3 \<Rightarrow> mux_and_cleanup (fixed_video_of t) (a_tmp_of t) (final_of t) mo w3))
      else mux_and_cleanup (v_tmp_of t) (a_tmp_of t) (final_of t) mo (create_file (a_tmp_of t) w))"
  using assms by (simp add: post_capture_def Let_def)

lemma post_capture_calls:
  assumes "audio \<noteq> []" "actual_fps_of f d = Inr x"
  shows "calls (snd (post_capture d t f audio ro mo w)) =
     (if needs_retime x
      then calls w @ [retime_cmd (v_tmp_of t) x (fixed_video_of t)]
             @ (if ro = ToolMissing \<or> v_tmp_of t \<notin> files w then []
                else [mux_cmd (fixed_video_of t) (a_tmp_of t) (final_of t)])
      else calls w @ [mux_cmd (v_tmp_of t) (a_tmp_of t) (final_of t)])"
proof (cases "needs_retime x")
  case False
  then show ?thesis
    by (simp add: post_capture_unfold [OF assms] mux_calls create_file_def)
next
  case True
  show ?thesis
  proof (cases ro)
    case ToolMissing
    then show ?thesis
      using True by (simp add: post_capture_unfold [OF assms] create_file_def)
  next
    case (Exited st wrote)
    then show ?thesis
      using True names_distinct [of t]
      by (simp add: post_capture_unfold [OF assms] create_file_def os_remove_def mux_calls Let_def)
  qed
qed

lemma post_capture_no_zero_division:
  "fst (post_capture d t f audio ro mo w) \<noteq> Inl ZeroDivisionError"
proof (cases "audio = []")
  case True
  then show ?thesis by (simp add: post_capture_def)
next
  case False
  obtain x where x: "actual_fps_of f d = Inr x"
    using actual_fps_total by blast
  show ?thesis
    using mux_no_zero_division
    by (cases ro)
      (auto simp: post_capture_unfold [OF False x] os_remove_def Let_def split: sum.splits)
qed

lemma post_capture_creates_audio:
  assumes "audio \<noteq> []"
  shows "a_tmp_of t \<in> set (created (snd (post_capture d t f audio ro mo w)))"
proof -
  obtain x where x: "actual_fps_of f d = Inr x"
    using actual_fps_total by blast
  show ?thesis
  proof (cases ro)
    case ToolMissing
    then show ?thesis
      by (simp add: post_capture_unfold [OF assms x] create_file_def mux_keeps_created)
  next
    case (Exited s wrote)
    then show ?thesis
      by (simp add: post_capture_unfold [OF assms x] create_file_def os_remove_def mux_keeps_created Let_def)
  qed
qed

lemma run_reaches_post_capture:
  assumes "audio_ok e" "capture duration e = Some st"
  shows "run duration e w =
           Some (post_capture duration (ts e) (frames_written st) (audio_frames e)
                   (retime_out e) (mux_out e)
                   (if vw_opened e then create_file (v_tmp_of (ts e)) w else w))"
  using assms by (simp add: run_def Let_def)

lemma capture_tools_irrelevant:
  "capture d (e\<lparr>retime_out := ro, mux_out := mo\<rparr>) = capture d e"
  by (simp add: capture_def)

lemma post_capture_status_irrelevant:
  "post_capture d t f audio (Exited s1 b1) (Exited s2 b2) w =
   post_capture d t f audio (Exited 0 b1) (Exited 0 b2) w"
  by (simp add: post_capture_def mux_and_cleanup_def Let_def split: sum.splits)

lemma run_status_irrelevant:
  "run d (e\<lparr>retime_out := Exited s1 b1, mux_out := Exited s2 b2\<rparr>) w =
   run d (e\<lparr>retime_out := Exited 0 b1, mux_out := Exited 0 b2\<rparr>) w"
  by (simp add: run_def capture_tools_irrelevant Let_def
      post_capture_status_irrelevant [of d _ _ _ s1 b1 s2 b2] split: option.splits)

lemma post_capture_success:
  assumes "audio \<noteq> []" "v_tmp_of t \<in> files w"
  shows "fst (post_capture d t f audio (Exited s1 True) (Exited s2 wm) w) = Inr (final_of t)
     \<and> v_tmp_of t \<notin> files (snd (post_capture d t f audio (Exited s1 True) (Exited s2 wm) w))
     \<and> a_tmp_of t \<notin> files (snd (post_capture d t f audio (Exited s1 True) (Exited s2 wm) w))"
proof -
  obtain x where x: "actual_fps_of f d = Inr x"
    using actual_fps_total by blast
  show ?thesis
    using assms(2) names_distinct [of t]
    by (cases "needs_retime x")
      (auto simp: post_capture_unfold [OF assms(1) x] mux_and_cleanup_def os_remove_def
        create_file_def Let_def)
qed

lemmas session_defs =
  mux_and_cleanup_def os_remove_def create_file_def retime_cmd_def mux_cmd_def
  v_tmp_of_def a_tmp_of_def final_of_def fixed_video_of_def Let_def

text \<open>
  A session of 1 s in which two frames are written, with both tools succeeding.
\<close>

lemma two_frame_capture:
  "capture 1 \<lparr>ts = ''20240101_000000'', cam_opened = True, vw_opened = True, audio_ok = True,
        clock0 = 0, trace = [(0, True, 1 / 100), (1 / 20, True, 3 / 50), (1, True, 1)],
        audio_frames = [[0]], retime_out = Exited 0 True, mux_out = Exited 0 True\<rparr>
     = Some \<lparr>next_frame_t = 1 / 10, frames_written = 2, sleeps = [Some (1 / 25), Some (1 / 25)]\<rparr>"
  by (simp add: capture_def loop_body_def frame_interval_def fps_target_def Let_def)

lemma two_frame_session:
  "run 1 \<lparr>ts = ''20240101_000000'', cam_opened = True, vw_opened = True, audio_ok = True,
        clock0 = 0, trace = [(0, True, 1 / 100), (1 / 20, True, 3 / 50), (1, True, 1)],
        audio_frames = [[0]], retime_out = Exited 0 True, mux_out = Exited 0 True\<rparr>
        \<lparr>files = {}, created = [], calls = []\<rparr>
     = Some (Inr ''sleep_20240101_000000.mp4'',
         \<lparr>files = {''sleep_20240101_000000.mp4''},
          created = [''v_20240101_000000.mp4'', ''a_20240101_000000.wav'',
                     ''vfix_20240101_000000.mp4'', ''sleep_20240101_000000.mp4''],
          calls = [[''ffmpeg'', ''-y'', ''-i'', ''v_20240101_000000.mp4'', ''-r'', ''2.0000'',
                    ''vfix_20240101_000000.mp4''],
                   [''ffmpeg'', ''-y'', ''-i'', ''vfix_20240101_000000.mp4'', ''-i'',
                    ''a_20240101_000000.wav'', ''-c:v'', ''copy'', ''-c:a'', ''aac'',
                    ''-movflags'', ''+faststart'', ''-shortest'',
                    ''sleep_20240101_000000.mp4'']]\<rparr>)"
proof -
  have f: "actual_fps_of 2 1 = Inr (Double False 4503599627370496 (- 51))"
    by (simp add: actual_fps_of_def rate_2_1)
  have a: "[[0 :: real]] \<noteq> []" by simp
  show ?thesis
    unfolding run_reaches_post_capture [OF _ two_frame_capture, simplified]
    by (simp add: post_capture_unfold [OF a f] rate_2_retime rate_2_fmt session_defs
        insert_Diff_if)
qed

text \<open>
  Claim C1. A session that comes to its end computes the frame rate as the number of
  frames written divided by the requested duration, in binary floating point: no clock
  reading enters, only the count the capture loop returns. The retiming command is invoked
  exactly when the float difference of that rate and 20 is, in absolute value, greater
  than the float \<open>0.1\<close>; its argument vector carries the raw video file, the rate printed
  with four decimals and the name of the retimed file, and the muxer is then invoked on
  the retimed file (unless the retiming call or the removal of the raw file raised).
  Otherwise the only invocation is the muxer's, on the raw video file. The quotient is the
  double nearest to the exact quotient (relative error at most \<open>2\<^sup>-\<^sup>5\<^sup>3\<close>), the subtraction
  is rounded in the same way, the literal \<open>0.1\<close> is the double \<open>3602879701896397 / 2\<^sup>5\<^sup>5\<close>,
  and the printed digits read back as the value of the rate times 10000, rounded to an
  integer. With 180 frames in 10 s the rate is 18, retiming is needed and the command
  carries \<open>18.0000\<close>; with 200 frames it is 20 and no retiming is needed; with 199 or 201
  frames the rounded difference exceeds the rounded \<open>0.1\<close> and retiming is needed.
\<close>

theorem retime_decision:
  "(run duration e w = Some (r, w') \<and> audio_ok e \<and> audio_frames e \<noteq> [] \<and> duration \<noteq> 0
      \<and> capture duration e = Some st \<longrightarrow>
      (\<exists>actual_fps. py_truediv (frames_written st) duration = Inr actual_fps
         \<and> calls w' = calls w @
             (if needs_retime actual_fps
              then [''ffmpeg'', ''-y'', ''-i'', v_tmp_of (ts e), ''-r'', fmt4f actual_fps,
                    fixed_video_of (ts e)]
                   # (if retime_out e = ToolMissing
                          \<or> (\<not> vw_opened e \<and> v_tmp_of (ts e) \<notin> files w) then []
                      else [[''ffmpeg'', ''-y'', ''-i'', fixed_video_of (ts e), ''-i'',
                             a_tmp_of (ts e), ''-c:v'', ''copy'', ''-c:a'', ''aac'',
                             ''-movflags'', ''+faststart'', ''-shortest'', final_of (ts e)]])
              else [[''ffmpeg'', ''-y'', ''-i'', v_tmp_of (ts e), ''-i'', a_tmp_of (ts e),
                     ''-c:v'', ''copy'', ''-c:a'', ''aac'', ''-movflags'', ''+faststart'',
                     ''-shortest'', final_of (ts e)]])))
   \<and> (d \<noteq> 0 \<and> \<bar>d\<bar> < 2 ^ 1022 \<and> py_truediv f d = Inr y \<longrightarrow>
         \<bar>dval y - real f / real_of_int d\<bar> \<le> \<bar>real f / real_of_int d\<bar> / 2 ^ 53)
   \<and> (needs_retime x \<longleftrightarrow> dval float_0_1 < \<bar>dval (float_sub_int x 20)\<bar>)
   \<and> dval float_0_1 = 3602879701896397 / 2 ^ 55
   \<and> (2 powi (- 1022) \<le> \<bar>dval x - 20\<bar> \<longrightarrow>
         \<bar>dval (float_sub_int x 20) - (dval x - 20)\<bar> \<le> \<bar>dval x - 20\<bar> / 2 ^ 53)
   \<and> (\<exists>ip fp. fmt4f x = (if negative x then ''-'' else []) @ ip @ ''.'' @ fp
         \<and> ip \<noteq> [] \<and> length fp = 4 \<and> set (ip @ fp) \<subseteq> set ''0123456789''
         \<and> \<bar>real (read_digits (ip @ fp)) - \<bar>dval x\<bar> * 10000\<bar> \<le> 1 / 2)
   \<and> (\<exists>x18. actual_fps_of 180 10 = Inr x18 \<and> dval x18 = 18 \<and> needs_retime x18
         \<and> fmt4f x18 = ''18.0000'')
   \<and> (\<exists>x20. actual_fps_of 200 10 = Inr x20 \<and> dval x20 = 20 \<and> \<not> needs_retime x20)
   \<and> (\<exists>x. actual_fps_of 201 10 = Inr x \<and> needs_retime x \<and> fmt4f x = ''20.1000'')
   \<and> (\<exists>x. actual_fps_of 199 10 = Inr x \<and> needs_retime x \<and> fmt4f x = ''19.9000'')
   \<and> (\<exists>x. actual_fps_of 2001 100 = Inr x \<and> \<not> needs_retime x)
   \<and> (\<exists>x. actual_fps_of 2881 160 = Inr x \<and> needs_retime x \<and> fmt4f x = ''18.0063'')
   \<and> (\<exists>x. actual_fps_of 1 32 = Inr x \<and> fmt4f x = ''0.0312'')
   \<and> (\<exists>x. actual_fps_of 3 32 = Inr x \<and> fmt4f x = ''0.0938'')"
proof (intro conjI impI)
  assume a: "run duration e w = Some (r, w') \<and> audio_ok e \<and> audio_frames e \<noteq> [] \<and> duration \<noteq> 0
      \<and> capture duration e = Some st"
  let ?w1 = "if vw_opened e then create_file (v_tmp_of (ts e)) w else w"
  have c: "calls ?w1 = calls w"
    by (simp add: create_file_def)
  have m: "v_tmp_of (ts e) \<notin> files ?w1 \<longleftrightarrow> \<not> vw_opened e \<and> v_tmp_of (ts e) \<notin> files w"
    by (simp add: create_file_def)
  have "(r, w') = post_capture duration (ts e) (frames_written st) (audio_frames e)
                   (retime_out e) (mux_out e) ?w1"
    using a run_reaches_post_capture [of e duration st w] by simp
  then have w': "w' = snd (post_capture duration (ts e) (frames_written st) (audio_frames e)
                   (retime_out e) (mux_out e) ?w1)"
    by (metis snd_conv)
  from a have "duration \<noteq> 0" by simp
  from py_truediv_total [OF this] obtain x
    where x: "py_truediv (frames_written st) duration = Inr x"
    by blast
  with a have fps: "actual_fps_of (frames_written st) duration = Inr x"
    by (simp add: actual_fps_of_nonzero)
  from a have "audio_frames e \<noteq> []" by simp
  note pc = post_capture_calls [OF this fps, of "ts e" "retime_out e" "mux_out e" ?w1]
  have "calls w' = calls w @
             (if needs_retime x
              then [''ffmpeg'', ''-y'', ''-i'', v_tmp_of (ts e), ''-r'', fmt4f x,
                    fixed_video_of (ts e)]
                   # (if retime_out e = ToolMissing
                          \<or> (\<not> vw_opened e \<and> v_tmp_of (ts e) \<notin> files w) then []
                      else [[''ffmpeg'', ''-y'', ''-i'', fixed_video_of (ts e), ''-i'',
                             a_tmp_of (ts e), ''-c:v'', ''copy'', ''-c:a'', ''aac'',
                             ''-movflags'', ''+faststart'', ''-shortest'', final_of (ts e)]])
              else [[''ffmpeg'', ''-y'', ''-i'', v_tmp_of (ts e), ''-i'', a_tmp_of (ts e),
                     ''-c:v'', ''copy'', ''-c:a'', ''aac'', ''-movflags'', ''+faststart'',
                     ''-shortest'', final_of (ts e)]])"
    unfolding w' pc c m by (simp add: retime_cmd_def mux_cmd_def)
  with x show "\<exists>actual_fps. py_truediv (frames_written st) duration = Inr actual_fps
         \<and> calls w' = calls w @
             (if needs_retime actual_fps
              then [''ffmpeg'', ''-y'', ''-i'', v_tmp_of (ts e), ''-r'', fmt4f actual_fps,
                    fixed_video_of (ts e)]
                   # (if retime_out e = ToolMissing
                          \<or> (\<not> vw_opened e \<and> v_tmp_of (ts e) \<notin> files w) then []
                      else [[''ffmpeg'', ''-y'', ''-i'', fixed_video_of (ts e), ''-i'',
                             a_tmp_of (ts e), ''-c:v'', ''copy'', ''-c:a'', ''aac'',
                             ''-movflags'', ''+faststart'', ''-shortest'', final_of (ts e)]])
              else [[''ffmpeg'', ''-y'', ''-i'', v_tmp_of (ts e), ''-i'', a_tmp_of (ts e),
                     ''-c:v'', ''copy'', ''-c:a'', ''aac'', ''-movflags'', ''+faststart'',
                     ''-shortest'', final_of (ts e)]])"
    by (intro exI conjI)
next
  assume "d \<noteq> 0 \<and> \<bar>d\<bar> < 2 ^ 1022 \<and> py_truediv f d = Inr y"
  then show "\<bar>dval y - real f / real_of_int d\<bar> \<le> \<bar>real f / real_of_int d\<bar> / 2 ^ 53"
    using py_truediv_accurate [of d f y] by simp
next
  show "needs_retime x \<longleftrightarrow> dval float_0_1 < \<bar>dval (float_sub_int x 20)\<bar>"
    using needs_retime_dval [of x] by (simp add: fps_target_def)
next
  show "dval float_0_1 = 3602879701896397 / 2 ^ 55"
    by (simp add: dval_float_0_1)
next
  assume "2 powi (- 1022) \<le> \<bar>dval x - 20\<bar>"
  then show "\<bar>dval (float_sub_int x 20) - (dval x - 20)\<bar> \<le> \<bar>dval x - 20\<bar> / 2 ^ 53"
    using float_sub_int_accurate [of x 20] by simp
next
  show "\<exists>ip fp. fmt4f x = (if negative x then ''-'' else []) @ ip @ ''.'' @ fp
         \<and> ip \<noteq> [] \<and> length fp = 4 \<and> set (ip @ fp) \<subseteq> set ''0123456789''
         \<and> \<bar>real (read_digits (ip @ fp)) - \<bar>dval x\<bar> * 10000\<bar> \<le> 1 / 2"
    by (rule fmt4f_shape)
next
  have "actual_fps_of 180 10 = Inr (Double False 5066549580791808 (- 48))"
    by (simp add: actual_fps_of_def rate_180)
  then show "\<exists>x18. actual_fps_of 180 10 = Inr x18 \<and> dval x18 = 18 \<and> needs_retime x18
         \<and> fmt4f x18 = ''18.0000''"
    using rate_180_value rate_180_retime rate_180_fmt by (intro exI conjI)
next
  have "actual_fps_of 200 10 = Inr (float_of_int fps_target)"
    by (simp add: actual_fps_of_def rate_200)
  then show "\<exists>x20. actual_fps_of 200 10 = Inr x20 \<and> dval x20 = 20 \<and> \<not> needs_retime x20"
    using dval_target rate_200_retime by (intro exI conjI)
next
  have "actual_fps_of 201 10 = Inr (Double False 5657647031884186 (- 48))"
    by (simp add: actual_fps_of_def rate_201)
  then show "\<exists>x. actual_fps_of 201 10 = Inr x \<and> needs_retime x \<and> fmt4f x = ''20.1000''"
    using rate_201_retime rate_201_fmt by (intro exI conjI)
next
  have "actual_fps_of 199 10 = Inr (Double False 5601352036542054 (- 48))"
    by (simp add: actual_fps_of_def rate_199)
  then show "\<exists>x. actual_fps_of 199 10 = Inr x \<and> needs_retime x \<and> fmt4f x = ''19.9000''"
    using rate_199_retime rate_199_fmt by (intro exI conjI)
next
  have "actual_fps_of 2001 100 = Inr (Double False 5632314283980227 (- 48))"
    by (simp add: actual_fps_of_def rate_2001)
  then show "\<exists>x. actual_fps_of 2001 100 = Inr x \<and> \<not> needs_retime x"
    using rate_2001_retime by (intro exI conjI)
next
  have "actual_fps_of 2881 160 = Inr (Double False 5068308799396250 (- 48))"
    by (simp add: actual_fps_of_def rate_2881)
  then show "\<exists>x. actual_fps_of 2881 160 = Inr x \<and> needs_retime x \<and> fmt4f x = ''18.0063''"
    using rate_2881_retime rate_2881_fmt by (intro exI conjI)
next
  have "actual_fps_of 1 32 = Inr (Double False 4503599627370496 (- 57))"
    using rate_1_32 by (simp add: actual_fps_of_def)
  then show "\<exists>x. actual_fps_of 1 32 = Inr x \<and> fmt4f x = ''0.0312''"
    using rate_1_32_fmt by (intro exI conjI)
next
  have "actual_fps_of 3 32 = Inr (Double False 6755399441055744 (- 56))"
    by (simp add: actual_fps_of_def rate_3_32)
  then show "\<exists>x. actual_fps_of 3 32 = Inr x \<and> fmt4f x = ''0.0938''"
    using rate_3_32_fmt by (intro exI conjI)
qed

theorem retime_decision_witness:
  "capture 1 \<lparr>ts = ''20240101_000000'', cam_opened = True, vw_opened = True, audio_ok = True,
        clock0 = 0, trace = [(0, True, 1 / 100), (1 / 20, True, 3 / 50), (1, True, 1)],
        audio_frames = [[0]], retime_out = Exited 0 True, mux_out = Exited 0 True\<rparr>
     = Some \<lparr>next_frame_t = 1 / 10, frames_written = 2, sleeps = [Some (1 / 25), Some (1 / 25)]\<rparr>
   \<and> run 1 \<lparr>ts = ''20240101_000000'', cam_opened = True, vw_opened = True, audio_ok = True,
        clock0 = 0, trace = [(0, True, 1 / 100), (1 / 20, True, 3 / 50), (1, True, 1)],
        audio_frames = [[0]], retime_out = Exited 0 True, mux_out = Exited 0 True\<rparr>
        \<lparr>files = {}, created = [], calls = []\<rparr>
     = Some (Inr ''sleep_20240101_000000.mp4'',
         \<lparr>files = {''sleep_20240101_000000.mp4''},
          created = [''v_20240101_000000.mp4'', ''a_20240101_000000.wav'',
                     ''vfix_20240101_000000.mp4'', ''sleep_20240101_000000.mp4''],
          calls = [[''ffmpeg'', ''-y'', ''-i'', ''v_20240101_000000.mp4'', ''-r'', ''2.0000'',
                    ''vfix_20240101_000000.mp4''],
                   [''ffmpeg'', ''-y'', ''-i'', ''vfix_20240101_000000.mp4'', ''-i'',
                    ''a_20240101_000000.wav'', ''-c:v'', ''copy'', ''-c:a'', ''aac'',
                    ''-movflags'', ''+faststart'', ''-shortest'',
                    ''sleep_20240101_000000.mp4'']]\<rparr>)
   \<and> (\<exists>actual_fps. py_truediv 2 1 = Inr actual_fps \<and> needs_retime actual_fps
         \<and> fmt4f actual_fps = ''2.0000'')
   \<and> py_truediv 201 10 = Inr (Double False 5657647031884186 (- 48))
   \<and> \<bar>dval (Double False 5657647031884186 (- 48)) - 201 / 10\<bar> \<le> (201 / 10) / 2 ^ 53
   \<and> \<bar>dval (float_sub_int (Double False 5657647031884186 (- 48)) 20)
        - (dval (Double False 5657647031884186 (- 48)) - 20)\<bar>
      \<le> \<bar>dval (Double False 5657647031884186 (- 48)) - 20\<bar> / 2 ^ 53"
proof -
  let ?e = "\<lparr>ts = ''20240101_000000'', cam_opened = True, vw_opened = True, audio_ok = True,
        clock0 = 0, trace = [(0, True, 1 / 100), (1 / 20, True, 3 / 50), (1, True, 1)],
        audio_frames = [[0]], retime_out = Exited 0 True, mux_out = Exited 0 True\<rparr>"
  let ?w = "\<lparr>files = {}, created = [], calls = []\<rparr>"
  let ?st = "\<lparr>next_frame_t = 1 / 10, frames_written = 2, sleeps = [Some (1 / 25), Some (1 / 25)]\<rparr>"
  let ?w' = "\<lparr>files = {''sleep_20240101_000000.mp4''},
          created = [''v_20240101_000000.mp4'', ''a_20240101_000000.wav'',
                     ''vfix_20240101_000000.mp4'', ''sleep_20240101_000000.mp4''],
          calls = [[''ffmpeg'', ''-y'', ''-i'', ''v_20240101_000000.mp4'', ''-r'', ''2.0000'',
                    ''vfix_20240101_000000.mp4''],
                   [''ffmpeg'', ''-y'', ''-i'', ''vfix_20240101_000000.mp4'', ''-i'',
                    ''a_20240101_000000.wav'', ''-c:v'', ''copy'', ''-c:a'', ''aac'',
                    ''-movflags'', ''+faststart'', ''-shortest'',
                    ''sleep_20240101_000000.mp4'']]\<rparr>"
  let ?x = "Double False 5657647031884186 (- 48)"
  note c = two_frame_capture
  note r = two_frame_session
  from retime_decision [where duration = 1 and e = ?e and w = ?w
      and r = "Inr ''sleep_20240101_000000.mp4''" and w' = ?w' and st = ?st, THEN conjunct1] r c
  obtain x where x: "py_truediv 2 1 = Inr x"
    and cs: "calls ?w' = calls ?w @
      (if needs_retime x
       then [''ffmpeg'', ''-y'', ''-i'', v_tmp_of (ts ?e), ''-r'', fmt4f x, fixed_video_of (ts ?e)]
            # (if retime_out ?e = ToolMissing \<or> (\<not> vw_opened ?e \<and> v_tmp_of (ts ?e) \<notin> files ?w)
               then []
               else [[''ffmpeg'', ''-y'', ''-i'', fixed_video_of (ts ?e), ''-i'',
                      a_tmp_of (ts ?e), ''-c:v'', ''copy'', ''-c:a'', ''aac'',
                      ''-movflags'', ''+faststart'', ''-shortest'', final_of (ts ?e)]])
       else [[''ffmpeg'', ''-y'', ''-i'', v_tmp_of (ts ?e), ''-i'', a_tmp_of (ts ?e),
              ''-c:v'', ''copy'', ''-c:a'', ''aac'', ''-movflags'', ''+faststart'',
              ''-shortest'', final_of (ts ?e)]])"
    by auto
  have n: "needs_retime x"
    using cs by (cases "needs_retime x") simp_all
  with cs have "fmt4f x = ''2.0000''"
    by simp
  with x n have a: "\<exists>actual_fps. py_truediv 2 1 = Inr actual_fps \<and> needs_retime actual_fps
         \<and> fmt4f actual_fps = ''2.0000''"
    by blast
  note q = rate_201
  from retime_decision [where d = 10 and f = 201 and y = ?x, THEN conjunct2, THEN conjunct1] q
  have d: "\<bar>dval ?x - 201 / 10\<bar> \<le> (201 / 10) / 2 ^ 53"
    by simp
  have "2 powi (- 1022) \<le> \<bar>dval ?x - 20\<bar>"
    by (simp add: dval_def power_int_minus_divide)
  with retime_decision [where x = ?x, THEN conjunct2, THEN conjunct2, THEN conjunct2,
      THEN conjunct2, THEN conjunct1]
  have s: "\<bar>dval (float_sub_int ?x 20) - (dval ?x - 20)\<bar> \<le> \<bar>dval ?x - 20\<bar> / 2 ^ 53"
    by blast
  from c r a q d s show ?thesis
    by (intro conjI)
qed

text \<open>
  Claim C10. With a requested duration of zero the quotient is never computed: the rate
  is taken to be the target, 20, the division raises nothing, no retiming is asked for,
  and a session that gets as far as the muxer invokes only the muxer, on the raw video.
\<close>

theorem zero_duration_guard:
  "actual_fps_of f 0 = Inr (float_of_int fps_target)
   \<and> fps_target = 20 \<and> dval (float_of_int fps_target) = 20
   \<and> actual_fps_of f d \<noteq> Inl ZeroDivisionError
   \<and> \<not> needs_retime (float_of_int fps_target)
   \<and> fst (post_capture 0 t f audio ro mo w) \<noteq> Inl ZeroDivisionError
   \<and> (audio \<noteq> [] \<longrightarrow>
        calls (snd (post_capture 0 t f audio ro mo w)) =
          calls w @ [mux_cmd (v_tmp_of t) (a_tmp_of t) (final_of t)])
   \<and> run 0 e w \<noteq> Some (Inl ZeroDivisionError, w')"
proof (intro conjI impI)
  show "actual_fps_of f 0 = Inr (float_of_int fps_target)"
    by (rule actual_fps_of_zero)
  show "fps_target = 20"
    by (rule fps_target_def)
  show "dval (float_of_int fps_target) = 20"
    by (rule dval_target)
  show "actual_fps_of f d \<noteq> Inl ZeroDivisionError"
    using actual_fps_total [of f d] by auto
  show n: "\<not> needs_retime (float_of_int fps_target)"
    by (rule rate_200_retime)
  show "fst (post_capture 0 t f audio ro mo w) \<noteq> Inl ZeroDivisionError"
    by (rule post_capture_no_zero_division)
  show "calls (snd (post_capture 0 t f audio ro mo w)) =
          calls w @ [mux_cmd (v_tmp_of t) (a_tmp_of t) (final_of t)]" if "audio \<noteq> []"
    using post_capture_calls [OF that actual_fps_of_zero] n by simp
  show "run 0 e w \<noteq> Some (Inl ZeroDivisionError, w')"
  proof
    assume a: "run 0 e w = Some (Inl ZeroDivisionError, w')"
    then have ok: "audio_ok e"
      by (auto simp: run_def Let_def split: if_splits)
    with a obtain st where "capture 0 e = Some st"
      by (auto simp: run_def Let_def split: option.splits)
    from run_reaches_post_capture [OF ok this, of w] a
    show False
      using post_capture_no_zero_division
      by (metis fst_conv option.inject)
  qed
qed

theorem zero_duration_guard_witness:
  "[[0 :: real]] \<noteq> []
   \<and> calls (snd (post_capture 0 ''20240101_000000'' 0 [[0]] (Exited 0 True) (Exited 0 True)
        \<lparr>files = {''v_20240101_000000.mp4''}, created = [''v_20240101_000000.mp4''], calls = []\<rparr>))
     = [mux_cmd ''v_20240101_000000.mp4'' ''a_20240101_000000.wav'' ''sleep_20240101_000000.mp4'']"
  using zero_duration_guard [of 0 0 "''20240101_000000''" "[[0]]" "Exited 0 True" "Exited 0 True"
      "\<lparr>files = {''v_20240101_000000.mp4''}, created = [''v_20240101_000000.mp4''], calls = []\<rparr>"]
  by (simp add: v_tmp_of_def a_tmp_of_def final_of_def)

subsection \<open>Failing external tools\<close>

text \<open>
  A session of 10 s in which one frame is written: the rate is the double nearest to one
  tenth. The retiming process writes its file; the muxer exits with status 1 and writes
  nothing.
\<close>

lemma one_frame_session:
  "run 10 \<lparr>ts = ''20240101_000000'', cam_opened = True, vw_opened = True, audio_ok = True,
        clock0 = 0, trace = [(0, True, 1 / 100), (10, True, 10)],
        audio_frames = [[0]], retime_out = Exited 0 True, mux_out = Exited 1 False\<rparr>
        \<lparr>files = {}, created = [], calls = []\<rparr>
     = Some (Inr ''sleep_20240101_000000.mp4'',
         \<lparr>files = {},
          created = [''v_20240101_000000.mp4'', ''a_20240101_000000.wav'',
                     ''vfix_20240101_000000.mp4''],
          calls = [[''ffmpeg'', ''-y'', ''-i'', ''v_20240101_000000.mp4'', ''-r'', ''0.1000'',
                    ''vfix_20240101_000000.mp4''],
                   [''ffmpeg'', ''-y'', ''-i'', ''vfix_20240101_000000.mp4'', ''-i'',
                    ''a_20240101_000000.wav'', ''-c:v'', ''copy'', ''-c:a'', ''aac'',
                    ''-movflags'', ''+faststart'', ''-shortest'',
                    ''sleep_20240101_000000.mp4'']]\<rparr>)"
proof -
  have c: "capture 10 \<lparr>ts = ''20240101_000000'', cam_opened = True, vw_opened = True,
        audio_ok = True, clock0 = 0, trace = [(0, True, 1 / 100), (10, True, 10)],
        audio_frames = [[0]], retime_out = Exited 0 True, mux_out = Exited 1 False\<rparr>
      = Some \<lparr>next_frame_t = 1 / 20, frames_written = 1, sleeps = [Some (1 / 25)]\<rparr>"
    by (simp add: capture_def loop_body_def frame_interval_def fps_target_def Let_def)
  have f: "actual_fps_of 1 10 = Inr (Double False 7205759403792794 (- 56))"
    using rate_1_10 by (simp add: actual_fps_of_def)
  have a: "[[0 :: real]] \<noteq> []" by simp
  show ?thesis
    unfolding run_reaches_post_capture [OF _ c, simplified]
    using f
    by (simp add: post_capture_unfold [OF a] rate_1_10_retime rate_1_10_fmt session_defs
        insert_Diff_if)
qed

text \<open>
  Claim C3 says that a non-zero exit status of the retiming or muxing process fails the
  session and keeps the temporary files. Here the muxer exits with status 1 and writes
  nothing; the session still removes the temporary files and emits
  \<^verbatim>\<open>finished_recording\<close> with the final path.
\<close>

theorem exit_status_counterexample:
  "mux_out \<lparr>ts = ''20240101_000000'', cam_opened = True, vw_opened = True, audio_ok = True,
        clock0 = 0, trace = [(0, True, 1 / 100), (10, True, 10)],
        audio_frames = [[0]], retime_out = Exited 0 True, mux_out = Exited 1 False\<rparr>
     = Exited 1 False
   \<and> run 10 \<lparr>ts = ''20240101_000000'', cam_opened = True, vw_opened = True, audio_ok = True,
        clock0 = 0, trace = [(0, True, 1 / 100), (10, True, 10)],
        audio_frames = [[0]], retime_out = Exited 0 True, mux_out = Exited 1 False\<rparr>
        \<lparr>files = {}, created = [], calls = []\<rparr>
     = Some (Inr ''sleep_20240101_000000.mp4'',
         \<lparr>files = {},
          created = [''v_20240101_000000.mp4'', ''a_20240101_000000.wav'',
                     ''vfix_20240101_000000.mp4''],
          calls = [[''ffmpeg'', ''-y'', ''-i'', ''v_20240101_000000.mp4'', ''-r'', ''0.1000'',
                    ''vfix_20240101_000000.mp4''],
                   [''ffmpeg'', ''-y'', ''-i'', ''vfix_20240101_000000.mp4'', ''-i'',
                    ''a_20240101_000000.wav'', ''-c:v'', ''copy'', ''-c:a'', ''aac'',
                    ''-movflags'', ''+faststart'', ''-shortest'',
                    ''sleep_20240101_000000.mp4'']]\<rparr>)"
  using one_frame_session by simp

text \<open>
  Claim C3, amended. The exit status of the external tool is never looked at: a run
  ends the same way whatever the two statuses are. When the video writer has created its
  file, audio was captured, the retiming process (if invoked) has written its output and
  the muxer has exited with any status, the session emits \<^verbatim>\<open>finished_recording\<close>
  with the final path, the raw video and audio files are removed, and
  \<^verbatim>\<open>on_done\<close> clears \<open>rec_active\<close>.
\<close>

theorem exit_status_ignored:
  "(run duration e w = Some (r, w') \<and> audio_ok e \<and> vw_opened e \<and> audio_frames e \<noteq> []
     \<and> retime_out e = Exited s1 True \<and> mux_out e = Exited s2 wm \<longrightarrow>
       r = Inr (final_of (ts e))
       \<and> v_tmp_of (ts e) \<notin> files w' \<and> a_tmp_of (ts e) \<notin> files w'
       \<and> \<not> rec_active (after_session r a))
   \<and> run duration (e\<lparr>retime_out := Exited s1 b1, mux_out := Exited s2 b2\<rparr>) w =
     run duration (e\<lparr>retime_out := Exited 0 b1, mux_out := Exited 0 b2\<rparr>) w"
proof (intro conjI impI)
  show "run duration (e\<lparr>retime_out := Exited s1 b1, mux_out := Exited s2 b2\<rparr>) w =
     run duration (e\<lparr>retime_out := Exited 0 b1, mux_out := Exited 0 b2\<rparr>) w"
    by (rule run_status_irrelevant)
next
  assume h: "run duration e w = Some (r, w') \<and> audio_ok e \<and> vw_opened e \<and> audio_frames e \<noteq> []
     \<and> retime_out e = Exited s1 True \<and> mux_out e = Exited s2 wm"
  then obtain st where st: "capture duration e = Some st"
    by (auto simp: run_def Let_def split: option.splits)
  let ?w1 = "create_file (v_tmp_of (ts e)) w"
  have rw: "(r, w') = post_capture duration (ts e) (frames_written st) (audio_frames e)
      (Exited s1 True) (Exited s2 wm) ?w1"
    using h run_reaches_post_capture [of e duration st w] st by simp
  have "v_tmp_of (ts e) \<in> files ?w1"
    by (simp add: create_file_def)
  from post_capture_success [OF _ this, of "audio_frames e" duration "frames_written st" s1 s2 wm] h
  have p: "fst (r, w') = Inr (final_of (ts e)) \<and> v_tmp_of (ts e) \<notin> files (snd (r, w'))
      \<and> a_tmp_of (ts e) \<notin> files (snd (r, w'))"
    unfolding rw by simp
  then show "r = Inr (final_of (ts e))" by simp
  from p show "v_tmp_of (ts e) \<notin> files w'" by simp
  from p show "a_tmp_of (ts e) \<notin> files w'" by simp
  from p show "\<not> rec_active (after_session r a)" by (simp add: on_done_def)
qed

theorem exit_status_ignored_witness:
  "run 10 \<lparr>ts = ''20240101_000000'', cam_opened = True, vw_opened = True, audio_ok = True,
        clock0 = 0, trace = [(0, True, 1 / 100), (10, True, 10)],
        audio_frames = [[0]], retime_out = Exited 0 True, mux_out = Exited 1 False\<rparr>
        \<lparr>files = {}, created = [], calls = []\<rparr>
     = Some (Inr ''sleep_20240101_000000.mp4'',
         \<lparr>files = {},
          created = [''v_20240101_000000.mp4'', ''a_20240101_000000.wav'',
                     ''vfix_20240101_000000.mp4''],
          calls = [[''ffmpeg'', ''-y'', ''-i'', ''v_20240101_000000.mp4'', ''-r'', ''0.1000'',
                    ''vfix_20240101_000000.mp4''],
                   [''ffmpeg'', ''-y'', ''-i'', ''vfix_20240101_000000.mp4'', ''-i'',
                    ''a_20240101_000000.wav'', ''-c:v'', ''copy'', ''-c:a'', ''aac'',
                    ''-movflags'', ''+faststart'', ''-shortest'',
                    ''sleep_20240101_000000.mp4'']]\<rparr>)
   \<and> rec_active (on_spike init_app)
   \<and> \<not> rec_active (after_session (Inr ''sleep_20240101_000000.mp4'') (on_spike init_app))"
proof -
  let ?e = "\<lparr>ts = ''20240101_000000'', cam_opened = True, vw_opened = True, audio_ok = True,
        clock0 = 0, trace = [(0, True, 1 / 100), (10, True, 10)],
        audio_frames = [[0]], retime_out = Exited 0 True, mux_out = Exited 1 False\<rparr>"
  let ?w' = "\<lparr>files = {},
          created = [''v_20240101_000000.mp4'', ''a_20240101_000000.wav'',
                     ''vfix_20240101_000000.mp4''],
          calls = [[''ffmpeg'', ''-y'', ''-i'', ''v_20240101_000000.mp4'', ''-r'', ''0.1000'',
                    ''vfix_20240101_000000.mp4''],
                   [''ffmpeg'', ''-y'', ''-i'', ''vfix_20240101_000000.mp4'', ''-i'',
                    ''a_20240101_000000.wav'', ''-c:v'', ''copy'', ''-c:a'', ''aac'',
                    ''-movflags'', ''+faststart'', ''-shortest'',
                    ''sleep_20240101_000000.mp4'']]\<rparr>"
  note r = one_frame_session
  have s: "rec_active (on_spike init_app)"
    by (simp add: on_spike_def init_app_def)
  from exit_status_ignored [where duration = 10 and e = ?e
      and w = "\<lparr>files = {}, created = [], calls = []\<rparr>"
      and r = "Inr ''sleep_20240101_000000.mp4''" and w' = ?w' and ?s1.0 = 0 and ?s2.0 = 1
      and wm = False and a = "on_spike init_app", THEN conjunct1] r
  have "\<not> rec_active (after_session (Inr ''sleep_20240101_000000.mp4'') (on_spike init_app))"
    by (simp add: final_of_def)
  with r s show ?thesis by blast
qed

subsection \<open>Devices that cannot be opened\<close>

lemma capture_loop_no_frames:
  "\<forall>x\<in>set tr. \<not> fst (snd x) \<Longrightarrow> capture_loop end_t st tr = Some st'
     \<Longrightarrow> frames_written st' = frames_written st"
proof (induction tr arbitrary: st)
  case Nil
  then show ?case by simp
next
  case (Cons x tr)
  obtain t ret now where x: "x = (t, ret, now)" by (cases x)
  with Cons.prems have nr: "\<not> ret" by simp
  show ?case
  proof (cases "t < end_t")
    case True
    with Cons.prems x have "capture_loop end_t (loop_body st ret now) tr = Some st'"
      by simp
    with Cons.IH [of "loop_body st ret now"] Cons.prems
    have "frames_written st' = frames_written (loop_body st ret now)"
      by simp
    then show ?thesis
      using nr by (simp add: loop_body_fields)
  next
    case False
    with Cons.prems x show ?thesis by simp
  qed
qed

lemma capture_no_camera:
  assumes "\<not> cam_opened e" "capture d e = Some st"
  shows "frames_written st = 0"
proof -
  let ?tr = "map (\<lambda>(t, ret, now). (t, cam_opened e \<and> ret, now)) (trace e)"
  have "\<forall>x\<in>set ?tr. \<not> fst (snd x)"
    using assms(1) by (auto split: prod.splits)
  from capture_loop_no_frames [OF this] assms(2) show ?thesis
    by (simp add: capture_def)
qed

text \<open>
  A session of 10 s with a camera that did not open: no frame is written and the rate is
  zero. The retiming process and the muxer exit with status 1 and write nothing.
\<close>

lemma no_camera_session:
  "run 10 \<lparr>ts = ''20240101_000000'', cam_opened = False, vw_opened = True,
        audio_ok = True, clock0 = 0, trace = [(0, True, 1 / 100), (10, True, 10)],
        audio_frames = [[0]], retime_out = Exited 1 False, mux_out = Exited 1 False\<rparr>
        \<lparr>files = {}, created = [], calls = []\<rparr>
     = Some (Inl FileNotFoundError,
         \<lparr>files = {''a_20240101_000000.wav''},
          created = [''v_20240101_000000.mp4'', ''a_20240101_000000.wav''],
          calls = [[''ffmpeg'', ''-y'', ''-i'', ''v_20240101_000000.mp4'', ''-r'', ''0.0000'',
                    ''vfix_20240101_000000.mp4''],
                   [''ffmpeg'', ''-y'', ''-i'', ''vfix_20240101_000000.mp4'', ''-i'',
                    ''a_20240101_000000.wav'', ''-c:v'', ''copy'', ''-c:a'', ''aac'',
                    ''-movflags'', ''+faststart'', ''-shortest'',
                    ''sleep_20240101_000000.mp4'']]\<rparr>)"
proof -
  have c: "capture 10 \<lparr>ts = ''20240101_000000'', cam_opened = False, vw_opened = True,
        audio_ok = True, clock0 = 0, trace = [(0, True, 1 / 100), (10, True, 10)],
        audio_frames = [[0]], retime_out = Exited 1 False, mux_out = Exited 1 False\<rparr>
      = Some \<lparr>next_frame_t = 1 / 20, frames_written = 0, sleeps = [Some (1 / 25)]\<rparr>"
    by (simp add: capture_def loop_body_def frame_interval_def fps_target_def Let_def)
  have f: "actual_fps_of 0 10 = Inr (Double False 0 0)"
    using rate_0_10 by (simp add: actual_fps_of_def)
  have a: "[[0 :: real]] \<noteq> []" by simp
  show ?thesis
    unfolding run_reaches_post_capture [OF _ c, simplified]
    using f
    by (simp add: post_capture_unfold [OF a] rate_0_retime rate_0_fmt session_defs
        insert_Diff_if)
qed

text \<open>
  Claim C8 says that a capture device that cannot be opened fails the session at once,
  before any temporary file exists. With a camera that did not open, this session runs
  its capture loop, creates the video and the audio file and invokes the external tool
  twice before an exception ends it.
\<close>

theorem camera_unopened_counterexample:
  "\<not> cam_opened \<lparr>ts = ''20240101_000000'', cam_opened = False, vw_opened = True,
        audio_ok = True, clock0 = 0, trace = [(0, True, 1 / 100), (10, True, 10)],
        audio_frames = [[0]], retime_out = Exited 1 False, mux_out = Exited 1 False\<rparr>
   \<and> run 10 \<lparr>ts = ''20240101_000000'', cam_opened = False, vw_opened = True,
        audio_ok = True, clock0 = 0, trace = [(0, True, 1 / 100), (10, True, 10)],
        audio_frames = [[0]], retime_out = Exited 1 False, mux_out = Exited 1 False\<rparr>
        \<lparr>files = {}, created = [], calls = []\<rparr>
     = Some (Inl FileNotFoundError,
         \<lparr>files = {''a_20240101_000000.wav''},
          created = [''v_20240101_000000.mp4'', ''a_20240101_000000.wav''],
          calls = [[''ffmpeg'', ''-y'', ''-i'', ''v_20240101_000000.mp4'', ''-r'', ''0.0000'',
                    ''vfix_20240101_000000.mp4''],
                   [''ffmpeg'', ''-y'', ''-i'', ''vfix_20240101_000000.mp4'', ''-i'',
                    ''a_20240101_000000.wav'', ''-c:v'', ''copy'', ''-c:a'', ''aac'',
                    ''-movflags'', ''+faststart'', ''-shortest'',
                    ''sleep_20240101_000000.mp4'']]\<rparr>)"
  using no_camera_session by simp

text \<open>
  Claim C8, amended. Only the audio input stream is checked on opening: when it cannot be
  opened the session ends at once with the exception of line 41, before the capture loop
  and before the audio file is written, the video writer having already been constructed
  on the video file. A camera that cannot be opened is not detected: no frame is written,
  and the session is finalised as one with zero frames; every session with audio that
  gets there writes the audio file.
\<close>

theorem device_unavailable:
  "(\<not> audio_ok e \<longrightarrow>
      run duration e w =
        Some (Inl PortAudioError, if vw_opened e then create_file (v_tmp_of (ts e)) w else w))
   \<and> (audio_ok e \<and> \<not> cam_opened e \<and> run duration e w = Some (r, w') \<longrightarrow>
        (r, w') = post_capture duration (ts e) 0 (audio_frames e) (retime_out e) (mux_out e)
                    (if vw_opened e then create_file (v_tmp_of (ts e)) w else w))
   \<and> (audio_ok e \<and> audio_frames e \<noteq> [] \<and> run duration e w = Some (r, w') \<longrightarrow>
        a_tmp_of (ts e) \<in> set (created w'))"
proof (intro conjI impI)
  assume "\<not> audio_ok e"
  then show "run duration e w =
        Some (Inl PortAudioError, if vw_opened e then create_file (v_tmp_of (ts e)) w else w)"
    by (simp add: run_def Let_def)
next
  assume h: "audio_ok e \<and> \<not> cam_opened e \<and> run duration e w = Some (r, w')"
  then obtain st where st: "capture duration e = Some st"
    by (auto simp: run_def Let_def split: option.splits)
  with h have "frames_written st = 0"
    using capture_no_camera by blast
  with h st run_reaches_post_capture [of e duration st w]
  show "(r, w') = post_capture duration (ts e) 0 (audio_frames e) (retime_out e) (mux_out e)
                    (if vw_opened e then create_file (v_tmp_of (ts e)) w else w)"
    by simp
next
  assume h: "audio_ok e \<and> audio_frames e \<noteq> [] \<and> run duration e w = Some (r, w')"
  then obtain st where st: "capture duration e = Some st"
    by (auto simp: run_def Let_def split: option.splits)
  with h run_reaches_post_capture [of e duration st w]
  have "w' = snd (post_capture duration (ts e) (frames_written st) (audio_frames e)
      (retime_out e) (mux_out e) (if vw_opened e then create_file (v_tmp_of (ts e)) w else w))"
    by (metis option.inject snd_conv)
  with h show "a_tmp_of (ts e) \<in> set (created w')"
    using post_capture_creates_audio by blast
qed

theorem device_unavailable_witness:
  "run 10 \<lparr>ts = ''20240101_000000'', cam_opened = True, vw_opened = True,
        audio_ok = False, clock0 = 0, trace = [(0, True, 1 / 100), (10, True, 10)],
        audio_frames = [], retime_out = Exited 0 True, mux_out = Exited 0 True\<rparr>
        \<lparr>files = {}, created = [], calls = []\<rparr>
     = Some (Inl PortAudioError,
         \<lparr>files = {''v_20240101_000000.mp4''}, created = [''v_20240101_000000.mp4''],
          calls = []\<rparr>)
   \<and> run 10 \<lparr>ts = ''20240101_000000'', cam_opened = False, vw_opened = True,
        audio_ok = True, clock0 = 0, trace = [(0, True, 1 / 100), (10, True, 10)],
        audio_frames = [[0]], retime_out = Exited 1 False, mux_out = Exited 1 False\<rparr>
        \<lparr>files = {}, created = [], calls = []\<rparr>
     = Some (post_capture 10 ''20240101_000000'' 0 [[0]] (Exited 1 False) (Exited 1 False)
         \<lparr>files = {''v_20240101_000000.mp4''}, created = [''v_20240101_000000.mp4''],
          calls = []\<rparr>)
   \<and> ''a_20240101_000000.wav'' \<in> set (created (snd
        (post_capture 10 ''20240101_000000'' 0 [[0]] (Exited 1 False) (Exited 1 False)
         \<lparr>files = {''v_20240101_000000.mp4''}, created = [''v_20240101_000000.mp4''],
          calls = []\<rparr>)))"
proof -
  let ?w = "\<lparr>files = {}, created = [], calls = []\<rparr>"
  let ?e1 = "\<lparr>ts = ''20240101_000000'', cam_opened = True, vw_opened = True,
        audio_ok = False, clock0 = 0, trace = [(0, True, 1 / 100), (10, True, 10)],
        audio_frames = [], retime_out = Exited 0 True, mux_out = Exited 0 True\<rparr>"
  let ?e2 = "\<lparr>ts = ''20240101_000000'', cam_opened = False, vw_opened = True,
        audio_ok = True, clock0 = 0, trace = [(0, True, 1 / 100), (10, True, 10)],
        audio_frames = [[0]], retime_out = Exited 1 False, mux_out = Exited 1 False\<rparr>"
  let ?p = "post_capture 10 ''20240101_000000'' 0 [[0]] (Exited 1 False) (Exited 1 False)
         \<lparr>files = {''v_20240101_000000.mp4''}, created = [''v_20240101_000000.mp4''],
          calls = []\<rparr>"
  have a: "run 10 ?e1 ?w = Some (Inl PortAudioError,
         \<lparr>files = {''v_20240101_000000.mp4''}, created = [''v_20240101_000000.mp4''],
          calls = []\<rparr>)"
    using device_unavailable [where e = ?e1 and duration = 10 and w = ?w, THEN conjunct1]
    by (simp add: create_file_def v_tmp_of_def)
  have c: "capture 10 ?e2
      = Some \<lparr>next_frame_t = 1 / 20, frames_written = 0, sleeps = [Some (1 / 25)]\<rparr>"
    by (simp add: capture_def loop_body_def frame_interval_def fps_target_def Let_def)
  have b: "run 10 ?e2 ?w = Some ?p"
    by (simp add: run_def c Let_def create_file_def v_tmp_of_def)
  have "a_tmp_of (ts ?e2) \<in> set (created (snd ?p))"
    using device_unavailable [where e = ?e2 and duration = 10 and w = ?w
        and r = "fst ?p" and w' = "snd ?p", THEN conjunct2, THEN conjunct2] b
    by simp
  then have d: "''a_20240101_000000.wav'' \<in> set (created (snd ?p))"
    by (simp add: a_tmp_of_def)
  from a b d show ?thesis by blast
qed

subsection \<open>The recording gate\<close>

lemma idle_without_spike:
  "\<not> rec_active a \<Longrightarrow> \<forall>ev\<in>set evs. ev \<noteq> Spike \<Longrightarrow> \<not> rec_active (foldl handle a evs)"
proof (induction evs arbitrary: a)
  case Nil
  then show ?case by simp
next
  case (Cons ev evs)
  have "\<not> rec_active (handle a ev)"
    using Cons.prems
    by (cases ev) (simp_all add: start_mon_def stop_mon_def on_done_def split: option.splits)
  with Cons show ?case by simp
qed

lemma active_until_done:
  "rec_active a \<Longrightarrow> \<forall>ev\<in>set evs. \<not> is_done ev \<Longrightarrow> rec_active (foldl handle a evs)"
proof (induction evs arbitrary: a)
  case Nil
  then show ?case by simp
next
  case (Cons ev evs)
  have "rec_active (handle a ev)"
    using Cons.prems
    by (cases ev) (simp_all add: start_mon_def stop_mon_def on_spike_def split: option.splits)
  with Cons show ?case by simp
qed

lemma mux_emits_final:
  "fst (mux_and_cleanup v a f mo w) = Inr p \<Longrightarrow> p = f"
  by (cases mo)
    (auto simp: mux_and_cleanup_def os_remove_def create_file_def Let_def
      split: sum.splits if_splits)

lemma post_capture_emits_final:
  assumes "fst (post_capture d t f audio ro mo w) = Inr p"
  shows "p = final_of t"
proof -
  have na: "audio \<noteq> []"
    using assms by (auto simp: post_capture_def)
  obtain x where x: "actual_fps_of f d = Inr x"
    using actual_fps_total by blast
  show ?thesis
  proof (cases "needs_retime x")
    case False
    with assms show ?thesis
      by (simp add: post_capture_unfold [OF na x] mux_emits_final)
  next
    case True
    with assms show ?thesis
      by (cases ro)
        (auto simp: post_capture_unfold [OF na x] os_remove_def Let_def mux_emits_final
          split: if_splits)
  qed
qed

lemma run_emits_final:
  assumes "run d e w = Some (Inr p, w')"
  shows "p = final_of (ts e)"
proof -
  from assms have ok: "audio_ok e"
    by (auto simp: run_def Let_def split: if_splits)
  with assms obtain st where "capture d e = Some st"
    by (auto simp: run_def Let_def split: option.splits)
  from run_reaches_post_capture [OF ok this, of w] assms
  have "fst (post_capture d (ts e) (frames_written st) (audio_frames e) (retime_out e) (mux_out e)
      (if vw_opened e then create_file (v_tmp_of (ts e)) w else w)) = Inr p"
    by (metis fst_conv option.inject)
  then show ?thesis
    by (rule post_capture_emits_final)
qed

text \<open>A session that cannot open its audio input stream.\<close>

lemma no_audio_session:
  "run 10 \<lparr>ts = ''20240101_000000'', cam_opened = True, vw_opened = True,
        audio_ok = False, clock0 = 0, trace = [(0, True, 1 / 100), (10, True, 10)],
        audio_frames = [], retime_out = Exited 0 True, mux_out = Exited 0 True\<rparr>
        \<lparr>files = {}, created = [], calls = []\<rparr>
     = Some (Inl PortAudioError,
         \<lparr>files = {''v_20240101_000000.mp4''}, created = [''v_20240101_000000.mp4''],
          calls = []\<rparr>)"
  by (simp add: run_def Let_def create_file_def v_tmp_of_def)

text \<open>
  Claim C9 says that \<open>rec_active\<close> is set false after the session ends. The only
  statement that clears it is in \<^verbatim>\<open>on_done\<close>, which runs when the recorder emits
  \<^verbatim>\<open>finished_recording\<close>, the last statement of its \<^verbatim>\<open>run\<close>. Here the first
  spike starts a recorder of 10 s whose audio input stream cannot be opened: the thread
  ends with the exception of line 41, nothing is emitted, the flag stays set, and the
  spikes that follow start no recording.
\<close>

theorem session_exception_counterexample:
  "rec_active (handle init_app Spike)
   \<and> rec (handle init_app Spike) = Some 10
   \<and> run 10 \<lparr>ts = ''20240101_000000'', cam_opened = True, vw_opened = True,
        audio_ok = False, clock0 = 0, trace = [(0, True, 1 / 100), (10, True, 10)],
        audio_frames = [], retime_out = Exited 0 True, mux_out = Exited 0 True\<rparr>
        \<lparr>files = {}, created = [], calls = []\<rparr>
     = Some (Inl PortAudioError,
         \<lparr>files = {''v_20240101_000000.mp4''}, created = [''v_20240101_000000.mp4''],
          calls = []\<rparr>)
   \<and> rec_active (after_session (Inl PortAudioError) (handle init_app Spike))
   \<and> handle (after_session (Inl PortAudioError) (handle init_app Spike)) Spike
     = handle init_app Spike
   \<and> rec_active (foldl handle (after_session (Inl PortAudioError) (handle init_app Spike))
        [Spike, StopMon, StartMon, Spike])"
  using no_audio_session
  by (simp add: init_app_def on_spike_def start_mon_def stop_mon_def)

text \<open>
  Claim C9, amended. \<open>rec_active\<close> is false when the application starts and stays false
  as long as no spike arrives; a spike arriving while it is false sets it and creates the
  recorder thread; it stays true under every event other than the recorder's
  \<^verbatim>\<open>finished_recording\<close>; a spike arriving while it is true leaves the whole state as
  it is. It is cleared only by the handler of \<^verbatim>\<open>finished_recording\<close>: a session that
  ends by emitting the signal (with the final path) has it cleared, and a session that
  ends with an exception leaves the state, and so the flag, as it was.
\<close>

theorem rec_active_gate:
  "\<not> rec_active init_app
   \<and> ((\<forall>ev\<in>set evs. ev \<noteq> Spike) \<longrightarrow> \<not> rec_active (foldl handle init_app evs))
   \<and> (\<not> rec_active a \<longrightarrow>
        rec_active (handle a Spike) \<and> rec (handle a Spike) = Some (dur_box a))
   \<and> (rec_active a \<and> (\<forall>ev\<in>set evs. \<not> is_done ev) \<longrightarrow> rec_active (foldl handle a evs))
   \<and> (rec_active a \<longrightarrow> handle a Spike = a)
   \<and> \<not> rec_active (handle a (Done f))
   \<and> (run d e w = Some (Inr p, w') \<longrightarrow>
        p = final_of (ts e) \<and> after_session (Inr p) a = handle a (Done p)
        \<and> \<not> rec_active (after_session (Inr p) a))
   \<and> (run d e w = Some (Inl err, w') \<longrightarrow>
        after_session (Inl err) a = a
        \<and> rec_active (after_session (Inl err) (handle a Spike)))"
proof (intro conjI impI)
  show "\<not> rec_active init_app"
    by (simp add: init_app_def)
  show "\<not> rec_active (foldl handle init_app evs)" if "\<forall>ev\<in>set evs. ev \<noteq> Spike"
    using idle_without_spike [of init_app evs] that by (simp add: init_app_def)
  show "rec_active (handle a Spike)" if "\<not> rec_active a"
    using that by (simp add: on_spike_def)
  show "rec (handle a Spike) = Some (dur_box a)" if "\<not> rec_active a"
    using that by (simp add: on_spike_def)
  show "rec_active (foldl handle a evs)" if "rec_active a \<and> (\<forall>ev\<in>set evs. \<not> is_done ev)"
    using active_until_done [of a evs] that by simp
  show "handle a Spike = a" if "rec_active a"
    using that by (simp add: on_spike_def)
  show "\<not> rec_active (handle a (Done f))"
    by (simp add: on_done_def)
  show "p = final_of (ts e)" if "run d e w = Some (Inr p, w')"
    using that by (rule run_emits_final)
  show "after_session (Inr p) a = handle a (Done p)"
    by simp
  show "\<not> rec_active (after_session (Inr p) a)"
    by (simp add: on_done_def)
  show "after_session (Inl err) a = a"
    by simp
  show "rec_active (after_session (Inl err) (handle a Spike))"
    by (simp add: on_spike_def)
qed

theorem rec_active_gate_witness:
  "\<not> rec_active (foldl handle init_app [StartMon, SliderMoved (- 20), StopMon, StartMon])
   \<and> rec_active (handle init_app Spike)
   \<and> rec (handle init_app Spike) = Some 10
   \<and> rec_active (foldl handle (handle init_app Spike) [Spike, SliderMoved (- 20), StopMon, Spike])
   \<and> handle (handle init_app Spike) Spike = handle init_app Spike
   \<and> \<not> rec_active (after_session (Inr ''sleep_20240101_000000.mp4'') (handle init_app Spike))
   \<and> after_session (Inl PortAudioError) (handle init_app Spike) = handle init_app Spike"
proof -
  let ?w = "\<lparr>files = {}, created = [], calls = []\<rparr>"
  let ?a = "handle init_app Spike"
  note g1 = rec_active_gate [where evs = "[StartMon, SliderMoved (- 20), StopMon, StartMon]"
      and a = init_app]
  have a: "\<not> rec_active (foldl handle init_app [StartMon, SliderMoved (- 20), StopMon, StartMon])"
    using g1 [THEN conjunct2, THEN conjunct1] by simp
  have i: "\<not> rec_active init_app"
    using g1 [THEN conjunct1] .
  have b: "rec_active ?a \<and> rec ?a = Some (dur_box init_app)"
    using g1 [THEN conjunct2, THEN conjunct2, THEN conjunct1] i by blast
  then have b1: "rec_active ?a" and b2: "rec ?a = Some 10"
    by (simp_all add: init_app_def)
  note g2 = rec_active_gate [where evs = "[Spike, SliderMoved (- 20), StopMon, Spike]"
      and a = ?a and w = ?w]
  have c: "rec_active (foldl handle ?a [Spike, SliderMoved (- 20), StopMon, Spike])"
    using g2 [THEN conjunct2, THEN conjunct2, THEN conjunct2, THEN conjunct1] b1
    by (simp del: foldl_Cons handle.simps)
  have d: "handle ?a Spike = ?a"
    using g2 [THEN conjunct2, THEN conjunct2, THEN conjunct2, THEN conjunct2, THEN conjunct1] b1
    by blast
  have e: "\<not> rec_active (after_session (Inr ''sleep_20240101_000000.mp4'') ?a)"
    using g2 [where d = 10 and p = "''sleep_20240101_000000.mp4''",
        THEN conjunct2, THEN conjunct2, THEN conjunct2, THEN conjunct2, THEN conjunct2,
        THEN conjunct2, THEN conjunct1] one_frame_session
    by blast
  have f: "after_session (Inl PortAudioError) ?a = ?a"
    using g2 [where d = 10 and err = PortAudioError,
        THEN conjunct2, THEN conjunct2, THEN conjunct2, THEN conjunct2, THEN conjunct2,
        THEN conjunct2, THEN conjunct2] no_audio_session
    by blast
  from a b1 b2 c d e f show ?thesis
    by (intro conjI)
qed

end
